theory Spec2Isabelle
  imports Main "HOL-Library.Word" "HOL-Library.AList"
begin

unbundle bit_operations_syntax

section \<open>Data model of the room actor (src/worker.js, class RoomDO)\<close>

text \<open>
  The objects the worker builds are modelled as records with the source's property names
  (prefixed where a name is taken in HOL: \<open>id\<close>, \<open>name\<close>, \<open>by\<close>, \<open>ts\<close>, \<open>type\<close>).
  JavaScript strings are \<open>string\<close>s; the numbers of the program are the millisecond
  readings of \<open>Date.now()\<close> and sums of them, modelled as \<open>int\<close>.
\<close>

record participant =
  p_id :: string
  p_name :: string
  p_role :: string
  joinedAt :: int

record focus =
  f_type :: string
  content :: string
  author :: string
  authorName :: string
  f_ts :: int

datatype event_kind = room_started | join | leave | set_focus

record timeline_event =
  te_ts :: int
  te_kind :: event_kind
  te_by :: string

record room =
  startedAt :: int
  focus :: focus
  participants :: "participant list"
  timeline :: "timeline_event list"

record invite =
  createdAt :: int
  ttlMs :: int

text \<open>Outbound messages: \<open>{kind: "presence", payload: {startedAt, participants, focus}}\<close>
  and \<open>{kind: "focus", payload: FocusState}\<close>. A frame is the text \<open>JSON.stringify\<close>
  makes of a message; the text itself is not modelled, a frame stands for it.\<close>

record public_state =
  ps_startedAt :: int
  ps_participants :: "participant list"
  ps_focus :: focus

datatype message = Presence public_state | Focus focus

datatype frame = Frame message

text \<open>The server end of a WebSocket pair: \<open>send\<close> throws when the socket is not
  open any more, and otherwise hands the frame to the peer.\<close>

record socket =
  ready :: bool
  sent :: "frame list"

record session =
  ws :: socket
  s_name :: string
  s_role :: string

datatype error = TypeError | SendError

text \<open>Everything the actor does to the outside is logged in order: the
  \<open>storage.put\<close> calls, the calls of \<open>JSON.stringify\<close>, and every attempt to send.\<close>

datatype effect =
    Put_room room
  | Put_invites "string \<rightharpoonup> invite"
  | Stringify message
  | Ws_send string frame
  | Ws_send_threw string frame

text \<open>
  The state of one \<open>RoomDO\<close>: the two storage keys (\<open>None\<close> when \<open>storage.get\<close>
  gives \<open>undefined\<close>), the \<open>sessions\<close> Map in insertion order, the log of effects,
  and the clock: \<open>Date.now()\<close> returns the next reading of an arbitrary sequence, so two
  calls in one handler may or may not agree.
\<close>

record actor =
  stored_room :: "room option"
  stored_invites :: "(string \<rightharpoonup> invite) option"
  sessions :: "(string \<times> session) list"
  effects :: "effect list"
  clock :: "nat \<Rightarrow> int"
  reads :: nat

definition Date_now :: "actor \<Rightarrow> int \<times> actor" where
  "Date_now st = (clock st (reads st), st\<lparr>reads := Suc (reads st)\<rparr>)"

definition storage_put_room :: "room \<Rightarrow> actor \<Rightarrow> actor" where
  "storage_put_room r st = st\<lparr>stored_room := Some r, effects := effects st @ [Put_room r]\<rparr>"

definition storage_put_invites :: "(string \<rightharpoonup> invite) \<Rightarrow> actor \<Rightarrow> actor" where
  "storage_put_invites m st =
     st\<lparr>stored_invites := Some m, effects := effects st @ [Put_invites m]\<rparr>"

text \<open>\<open>a || b\<close> on strings: the empty string is the only falsy one.\<close>

definition or_str :: "string \<Rightarrow> string \<Rightarrow> string" where
  "or_str a b = (if a = [] then b else a)"

section \<open>Room state: creation, reading, the three mutations\<close>

text \<open>The \<open>/init\<close> branch of \<open>RoomDO.fetch\<close> (lines 88-99).\<close>

definition init :: "actor \<Rightarrow> actor" where
  "init st =
     (let (started, st1) = Date_now st;
          room = \<lparr>startedAt = started,
                  focus = \<lparr>f_type = ''question'', content = '''', author = '''',
                            authorName = '''', f_ts = started\<rparr>,
                  participants = [],
                  timeline = [\<lparr>te_ts = started, te_kind = room_started, te_by = ''''\<rparr>]\<rparr>;
          st2 = storage_put_room room st1
      in storage_put_invites Map.empty st2)"

text \<open>\<open>_getRoom\<close> (lines 188-200): the stored room, or a fresh one that is stored first.\<close>

definition getRoom :: "actor \<Rightarrow> room \<times> actor" where
  "getRoom st =
     (case stored_room st of
        Some room \<Rightarrow> (room, st)
      | None \<Rightarrow>
          (let (started, st1) = Date_now st;
               fresh = \<lparr>startedAt = started,
                        focus = \<lparr>f_type = ''question'', content = '''', author = '''',
                                  authorName = '''', f_ts = started\<rparr>,
                        participants = [],
                        timeline = [\<lparr>te_ts = started, te_kind = room_started, te_by = ''''\<rparr>]\<rparr>
           in (fresh, storage_put_room fresh st1)))"

definition publicState :: "actor \<Rightarrow> public_state \<times> actor" where
  "publicState st =
     (let (room, st1) = getRoom st
      in (\<lparr>ps_startedAt = startedAt room, ps_participants = participants room,
            ps_focus = focus room\<rparr>, st1))"

definition getFocus :: "actor \<Rightarrow> focus \<times> actor" where
  "getFocus st = (let (room, st1) = getRoom st in (focus room, st1))"

definition addParticipant :: "participant \<Rightarrow> actor \<Rightarrow> actor" where
  "addParticipant p st =
     (let (room, st1) = getRoom st;
          room1 = room\<lparr>participants := participants room @ [p]\<rparr>;
          (now, st2) = Date_now st1;
          room2 = room1\<lparr>timeline := timeline room1 @
                    [\<lparr>te_ts = now, te_kind = join, te_by = p_id p\<rparr>]\<rparr>
      in storage_put_room room2 st2)"

definition removeParticipant :: "string \<Rightarrow> actor \<Rightarrow> actor" where
  "removeParticipant i st =
     (let (room, st1) = getRoom st;
          room1 = room\<lparr>participants := filter (\<lambda>x. p_id x \<noteq> i) (participants room)\<rparr>;
          (now, st2) = Date_now st1;
          room2 = room1\<lparr>timeline := timeline room1 @
                    [\<lparr>te_ts = now, te_kind = leave, te_by = i\<rparr>]\<rparr>
      in storage_put_room room2 st2)"

text \<open>\<open>_setFocus\<close> (lines 226-232): \<open>Date.now()\<close> is read twice, for the focus and
  for the timeline event.\<close>

definition setFocus :: "string \<Rightarrow> string \<Rightarrow> string \<Rightarrow> actor \<Rightarrow> actor" where
  "setFocus byId type content' st =
     (let (room, st1) = getRoom st;
          sender = map_of (sessions st1) byId;
          (now1, st2) = Date_now st1;
          room1 = room\<lparr>focus := \<lparr>f_type = type, content = content', author = byId,
                     authorName = (case sender of None \<Rightarrow> '''' | Some s \<Rightarrow> or_str (s_name s) ''''),
                     f_ts = now1\<rparr>\<rparr>;
          (now2, st3) = Date_now st2;
          room2 = room1\<lparr>timeline := timeline room1 @
                    [\<lparr>te_ts = now2, te_kind = set_focus, te_by = byId\<rparr>]\<rparr>
      in storage_put_room room2 st3)"

text \<open>The mutation entry points as one type, to speak about sequences of them.\<close>

datatype mutation =
    AddParticipant participant
  | RemoveParticipant string
  | SetFocus string string string

fun mutate :: "actor \<Rightarrow> mutation \<Rightarrow> actor" where
  "mutate st (AddParticipant p) = addParticipant p st"
| "mutate st (RemoveParticipant i) = removeParticipant i st"
| "mutate st (SetFocus byId type c) = setFocus byId type c st"

fun mutation_kind :: "mutation \<Rightarrow> event_kind" where
  "mutation_kind (AddParticipant p) = join"
| "mutation_kind (RemoveParticipant i) = leave"
| "mutation_kind (SetFocus byId type c) = set_focus"

fun mutation_by :: "mutation \<Rightarrow> string" where
  "mutation_by (AddParticipant p) = p_id p"
| "mutation_by (RemoveParticipant i) = i"
| "mutation_by (SetFocus byId type c) = byId"

definition mutations :: "mutation list \<Rightarrow> actor \<Rightarrow> actor" where
  "mutations ms st = foldl mutate st ms"

section \<open>Values that arrive from outside\<close>

text \<open>
  A parsed JSON value. Of a number the program observes only whether it is falsy (zero) and
  what \<open>String\<close> makes of it, so \<open>JNum z s\<close> carries exactly these two. An object is
  the list of its own properties (distinct keys). \<open>None\<close> of type \<open>json option\<close> is
  \<open>undefined\<close>.
\<close>

datatype json =
    JNull
  | JBool bool
  | JNum bool string
  | JStr string
  | JArr "json list"
  | JObj "(string \<times> json) list"

fun truthy :: "json option \<Rightarrow> bool" where
  "truthy None = False"
| "truthy (Some JNull) = False"
| "truthy (Some (JBool b)) = b"
| "truthy (Some (JNum z s)) = (\<not> z)"
| "truthy (Some (JStr s)) = (s \<noteq> [])"
| "truthy (Some (JArr xs)) = True"
| "truthy (Some (JObj ps)) = True"

text \<open>\<open>v.kind\<close>, \<open>v.payload\<close>, \<open>v.type\<close>, \<open>v.content\<close> on a value that is not
  \<open>null\<close>: an own property of an object, and \<open>undefined\<close> otherwise (none of these four
  names is a member of a built-in prototype).\<close>

fun get_prop :: "json \<Rightarrow> string \<Rightarrow> json option" where
  "get_prop (JObj ps) k = map_of ps k"
| "get_prop v k = None"

text \<open>
  \<open>String(v)\<close>. An array is joined with commas, \<open>null\<close> elements giving the empty
  string. A plain object gives \<open>[object Object]\<close> through \<open>Object.prototype.toString\<close>,
  unless it has an own property \<open>toString\<close>: a JSON value is never callable, the
  inherited \<open>valueOf\<close> returns the object itself, and the conversion throws a TypeError.
\<close>

fun String_of :: "json \<Rightarrow> error + string"
  and join_of :: "json list \<Rightarrow> error + string"
where
  "String_of JNull = Inr ''null''"
| "String_of (JBool b) = Inr (if b then ''true'' else ''false'')"
| "String_of (JNum z s) = Inr s"
| "String_of (JStr s) = Inr s"
| "String_of (JArr xs) = join_of xs"
| "String_of (JObj ps) =
     (if ''toString'' \<in> set (map fst ps) then Inl TypeError else Inr ''[object Object]'')"
| "join_of [] = Inr []"
| "join_of (x # xs) =
     (case (if x = JNull then Inr [] else String_of x) of
        Inl e \<Rightarrow> Inl e
      | Inr s \<Rightarrow>
          (if xs = [] then Inr s
           else (case join_of xs of Inl e \<Rightarrow> Inl e | Inr r \<Rightarrow> Inr (s @ '','' @ r))))"

text \<open>\<open>String.prototype.trim\<close>: the white space and line terminators of ECMAScript
  among the code units below 256 (tab, LF, VT, FF, CR, space, no-break space).\<close>

definition is_space :: "char \<Rightarrow> bool" where
  "is_space c = ((of_char c :: nat) \<in> set [9, 10, 11, 12, 13, 32, 160])"

definition trim :: "string \<Rightarrow> string" where
  "trim s = rev (dropWhile is_space (rev (dropWhile is_space s)))"

text \<open>\<open>clampStr(s, max) = String(s ?? "").trim().slice(0, max)\<close> (lines 33-35).\<close>

definition clampStr :: "json option \<Rightarrow> nat \<Rightarrow> error + string" where
  "clampStr s n =
     (case String_of (case s of None \<Rightarrow> JStr '''' | Some JNull \<Rightarrow> JStr '''' | Some v \<Rightarrow> v) of
        Inl e \<Rightarrow> Inl e
      | Inr t \<Rightarrow> Inr (take n (trim t)))"

text \<open>\<open>url.searchParams.get(k)\<close> is a string or \<open>null\<close>; \<open>param_or p d\<close> is
  \<open>url.searchParams.get(k) || d\<close>.\<close>

definition param :: "string option \<Rightarrow> json option" where
  "param p = (case p of None \<Rightarrow> Some JNull | Some s \<Rightarrow> Some (JStr s))"

definition param_or :: "string option \<Rightarrow> string \<Rightarrow> json option" where
  "param_or p d = Some (JStr (or_str (case p of None \<Rightarrow> '''' | Some s \<Rightarrow> s) d))"

section \<open>Invite tokens\<close>

text \<open>\<open>btoa\<close> of the string whose char codes are the given bytes: standard base64 with
  padding.\<close>

definition b64_alphabet :: string where
  "b64_alphabet = ''ABCDEFGHIJKLMNOPQRSTUVWXYZabcdefghijklmnopqrstuvwxyz0123456789+/''"

definition b64_char :: "8 word \<Rightarrow> char" where
  "b64_char i = b64_alphabet ! unat i"

fun btoa :: "8 word list \<Rightarrow> string" where
  "btoa [] = []"
| "btoa [a] =
     [b64_char (drop_bit 2 a), b64_char (push_bit 4 (a AND 3)), CHR ''='', CHR ''='']"
| "btoa [a, b] =
     [b64_char (drop_bit 2 a), b64_char (push_bit 4 (a AND 3) OR drop_bit 4 b),
      b64_char (push_bit 2 (b AND 15)), CHR ''='']"
| "btoa (a # b # c # rest) =
     [b64_char (drop_bit 2 a), b64_char (push_bit 4 (a AND 3) OR drop_bit 4 b),
      b64_char (push_bit 2 (b AND 15) OR drop_bit 6 c), b64_char (c AND 63)] @ btoa rest"

definition replaceAll :: "char \<Rightarrow> string \<Rightarrow> string \<Rightarrow> string" where
  "replaceAll c r s = concat (map (\<lambda>x. if x = c then r else [x]) s)"

text \<open>
  \<open>crypto.getRandomValues(new Uint8Array(n))\<close>: an array of \<open>n\<close> bytes, filled from the
  platform's source of random bytes. The source is the stream of bytes the call draws; the
  array has the length asked for, whatever the source.
\<close>

definition getRandomValues :: "(nat \<Rightarrow> 8 word) \<Rightarrow> nat \<Rightarrow> 8 word list" where
  "getRandomValues rng n = map rng [0..<n]"

text \<open>\<open>makeToken(bytes)\<close> (lines 26-32).\<close>

definition makeToken :: "(nat \<Rightarrow> 8 word) \<Rightarrow> nat \<Rightarrow> string" where
  "makeToken rng bytes =
     (let a = getRandomValues rng bytes
      in replaceAll CHR ''='' ''''
           (replaceAll CHR ''/'' ''_'' (replaceAll CHR ''+'' ''-'' (btoa a))))"

definition url_safe :: "char \<Rightarrow> bool" where
  "url_safe c = (c \<in> set ''ABCDEFGHIJKLMNOPQRSTUVWXYZabcdefghijklmnopqrstuvwxyz0123456789-_'')"

text \<open>
  The invite set is a plain object: \<open>invites[token]\<close> finds an own property or, failing
  that, a member of \<open>Object.prototype\<close> under that name (a function, or the prototype
  itself for \<open>__proto__\<close>): a truthy value whose \<open>createdAt\<close> and \<open>ttlMs\<close> are
  \<open>undefined\<close>.
\<close>

definition object_prototype_keys :: "string list" where
  "object_prototype_keys =
     [''constructor'', ''hasOwnProperty'', ''isPrototypeOf'', ''propertyIsEnumerable'',
      ''toLocaleString'', ''toString'', ''valueOf'', ''__proto__'', ''__defineGetter__'',
      ''__defineSetter__'', ''__lookupGetter__'', ''__lookupSetter__'']"

datatype entry = Own invite | Inherited

definition invites_get :: "(string \<rightharpoonup> invite) \<Rightarrow> string \<Rightarrow> entry option" where
  "invites_get invites token =
     (case invites token of
        Some i \<Rightarrow> Some (Own i)
      | None \<Rightarrow> if token \<in> set object_prototype_keys then Some Inherited else None)"

text \<open>\<open>age > entry.ttlMs\<close> with \<open>age = now - entry.createdAt\<close>: on an inherited member
  this is \<open>NaN > undefined\<close>, which is false.\<close>

fun expired :: "int \<Rightarrow> entry \<Rightarrow> bool" where
  "expired now (Own i) = (now - createdAt i > ttlMs i)"
| "expired now Inherited = False"

definition INVITE_TTL_MS :: int where
  "INVITE_TTL_MS = 15 * 60 * 1000"

text \<open>The \<open>/invite\<close> branch (lines 102-113): the token and \<open>expiresAt\<close> of the response.
  \<open>makeToken()\<close> is called with its default, 18 bytes; the argument is the source of
  random bytes of this call.\<close>

definition invite :: "(nat \<Rightarrow> 8 word) \<Rightarrow> actor \<Rightarrow> (string \<times> int) \<times> actor" where
  "invite rng st =
     (let token = makeToken rng 18;
          invites = (case stored_invites st of None \<Rightarrow> Map.empty | Some m \<Rightarrow> m);
          (now1, st1) = Date_now st;
          st2 = storage_put_invites
                  (invites(token \<mapsto> \<lparr>createdAt = now1, ttlMs = INVITE_TTL_MS\<rparr>)) st1;
          (now2, st3) = Date_now st2
      in ((token, now2 + INVITE_TTL_MS), st3))"

section \<open>Sessions and broadcast\<close>

definition ws_send :: "socket \<Rightarrow> frame \<Rightarrow> error + socket" where
  "ws_send w d = (if ready w then Inr (w\<lparr>sent := sent w @ [d]\<rparr>) else Inl SendError)"

definition JSON_stringify :: "message \<Rightarrow> actor \<Rightarrow> frame \<times> actor" where
  "JSON_stringify m st = (Frame m, st\<lparr>effects := effects st @ [Stringify m]\<rparr>)"

text \<open>The loop of \<open>_broadcast\<close> (lines 236-238): \<open>try { s.ws.send(data); } catch {}\<close> for
  every entry of the Map, in its order.\<close>

fun send_all ::
  "frame \<Rightarrow> (string \<times> session) list \<Rightarrow> (string \<times> session) list \<times> effect list" where
  "send_all d [] = ([], [])"
| "send_all d ((cid, s) # rest) =
     (let (s', e) = (case ws_send (ws s) d of
                       Inr w \<Rightarrow> (s\<lparr>ws := w\<rparr>, Ws_send cid d)
                     | Inl err \<Rightarrow> (s, Ws_send_threw cid d));
          (rest', es) = send_all d rest
      in ((cid, s') # rest', e # es))"

definition broadcast :: "message \<Rightarrow> actor \<Rightarrow> actor" where
  "broadcast m st =
     (let (d, st1) = JSON_stringify m st;
          (ss, es) = send_all d (sessions st1)
      in st1\<lparr>sessions := ss, effects := effects st1 @ es\<rparr>)"

text \<open>\<open>server.close(code, reason)\<close> inside \<open>try\<close>: the socket of that session, if it is
  still registered, stops being open.\<close>

definition close_socket :: "string \<Rightarrow> actor \<Rightarrow> actor" where
  "close_socket cid st =
     st\<lparr>sessions :=
          map (\<lambda>(k, s). if k = cid then (k, s\<lparr>ws := (ws s)\<lparr>ready := False\<rparr>\<rparr>) else (k, s))
            (sessions st)\<rparr>"

section \<open>The handlers of a connection\<close>

datatype response = Response nat string | Upgrade string

text \<open>
  The WebSocket branch of \<open>RoomDO.fetch\<close> up to the registration of the listeners (lines
  116-150, 182). The arguments are the three query parameters and the value of
  \<open>crypto.randomUUID()\<close>. \<open>Upgrade cid\<close> is the response with status 101 and the client
  end of the pair; \<open>Inl\<close> is a handler that threw.
\<close>

definition ws_fetch ::
  "string option \<Rightarrow> string option \<Rightarrow> string option \<Rightarrow> string \<Rightarrow> actor
     \<Rightarrow> (error + response) \<times> actor" where
  "ws_fetch tokenP nameP roleP clientId st =
     (case clampStr (param tokenP) 200 of Inl e \<Rightarrow> (Inl e, st) | Inr token \<Rightarrow>
     (case clampStr (param_or nameP ''Gast'') 40 of Inl e \<Rightarrow> (Inl e, st) | Inr name0 \<Rightarrow>
     (case clampStr (param_or roleP ''Gast'') 20 of Inl e \<Rightarrow> (Inl e, st) | Inr role0 \<Rightarrow>
      (let name = or_str name0 ''Gast''; role = or_str role0 ''Gast'' in
       if token = [] then (Inr (Response 401 ''Missing token''), st)
       else
         (let invites = (case stored_invites st of None \<Rightarrow> Map.empty | Some m \<Rightarrow> m) in
          case invites_get invites token of
            None \<Rightarrow> (Inr (Response 401 ''Invalid invite''), st)
          | Some entry \<Rightarrow>
              (let (now, st1) = Date_now st in
               if expired now entry then
                 (Inr (Response 401 ''Invite expired''),
                  storage_put_invites (invites(token := None)) st1)
               else
                 (let server = \<lparr>ready = True, sent = []\<rparr>;
                      st2 = st1\<lparr>sessions := AList.update clientId
                               \<lparr>ws = server, s_name = name, s_role = role\<rparr> (sessions st1)\<rparr>;
                      (now2, st3) = Date_now st2;
                      st4 = addParticipant
                              \<lparr>p_id = clientId, p_name = name, p_role = role, joinedAt = now2\<rparr> st3;
                      (ps, st5) = publicState st4;
                      (d, st6) = JSON_stringify (Presence ps) st5
                  in (case ws_send server d of
                        Inl e \<Rightarrow> (Inl e, st6\<lparr>effects := effects st6 @ [Ws_send_threw clientId d]\<rparr>)
                      | Inr server' \<Rightarrow>
                          (let st7 = st6\<lparr>sessions := AList.update clientId
                                       \<lparr>ws = server', s_name = name, s_role = role\<rparr> (sessions st6),
                                     effects := effects st6 @ [Ws_send clientId d]\<rparr>;
                               (ps2, st8) = publicState st7;
                               st9 = broadcast (Presence ps2) st8
                           in (Inr (Upgrade clientId), st9))))))))))"

text \<open>
  The \<open>message\<close> listener of the connection \<open>clientId\<close> (lines 152-170). The argument is
  the result of \<open>JSON.parse(evt.data)\<close>, \<open>None\<close> when it threw. The result says whether
  the listener threw.
\<close>

definition on_message :: "string \<Rightarrow> json option \<Rightarrow> actor \<Rightarrow> error option \<times> actor" where
  "on_message clientId parsed st =
     (case parsed of None \<Rightarrow> (None, st) | Some msg \<Rightarrow>
      if \<not> truthy (Some msg) \<or> \<not> truthy (get_prop msg ''kind'') then (None, st)
      else if get_prop msg ''kind'' = Some (JStr ''set_focus'') then
        (let payload = (if truthy (get_prop msg ''payload'') then the (get_prop msg ''payload'')
                        else JObj []);
             type = (if get_prop payload ''type'' = Some (JStr ''text'') then ''text''
                     else ''question'')
         in case clampStr (if truthy (get_prop payload ''content'') then get_prop payload ''content''
                           else Some (JStr '''')) 4000 of
              Inl e \<Rightarrow> (Some e, st)
            | Inr c \<Rightarrow>
                (let st1 = setFocus clientId type c st;
                     (f, st2) = getFocus st1;
                     st3 = broadcast (Focus f) st2
                 in (None, st3)))
      else if get_prop msg ''kind'' = Some (JStr ''leave'') then (None, close_socket clientId st)
      else (None, st))"

text \<open>The \<open>close\<close> listener (lines 172-176) and the \<open>error\<close> listener (lines 178-180).\<close>

definition on_close :: "string \<Rightarrow> actor \<Rightarrow> actor" where
  "on_close clientId st =
     (let st1 = st\<lparr>sessions := AList.delete clientId (sessions st)\<rparr>;
          st2 = removeParticipant clientId st1;
          (ps, st3) = publicState st2
      in broadcast (Presence ps) st3)"

definition on_error :: "string \<Rightarrow> actor \<Rightarrow> actor" where
  "on_error clientId st = close_socket clientId st"

text \<open>The events one room receives, and the actor handling them one at a time.\<close>

datatype event =
    Invite "nat \<Rightarrow> 8 word"
  | Connect "string option" "string option" "string option" string
  | Message string "json option"
  | Close string
  | Error string

fun step :: "actor \<Rightarrow> event \<Rightarrow> actor" where
  "step st (Invite rng) = snd (invite rng st)"
| "step st (Connect t n r cid) = snd (ws_fetch t n r cid st)"
| "step st (Message cid parsed) = snd (on_message cid parsed st)"
| "step st (Close cid) = on_close cid st"
| "step st (Error cid) = on_error cid st"

definition run :: "event list \<Rightarrow> actor \<Rightarrow> actor" where
  "run evs st = foldl step st evs"

text \<open>A \<open>RoomDO\<close> as its constructor leaves it (lines 78-82), over a given storage.\<close>

definition RoomDO :: "room option \<Rightarrow> (string \<rightharpoonup> invite) option \<Rightarrow> (nat \<Rightarrow> int) \<Rightarrow> actor" where
  "RoomDO r i c =
     \<lparr>stored_room = r, stored_invites = i, sessions = [], effects = [], clock = c, reads = 0\<rparr>"

section \<open>What a broadcast does to one connection\<close>

text \<open>Which effects are a serialisation and which a delivery, and what one pass of the
  loop of \<open>_broadcast\<close> does to a session and logs.\<close>

fun is_stringify :: "effect \<Rightarrow> bool" where
  "is_stringify (Stringify m) = True"
| "is_stringify e = False"

fun is_delivery :: "effect \<Rightarrow> bool" where
  "is_delivery (Ws_send c d) = True"
| "is_delivery e = False"

definition deliver :: "frame \<Rightarrow> string \<times> session \<Rightarrow> string \<times> session" where
  "deliver d = (\<lambda>(cid, s). (cid, if ready (ws s) then s\<lparr>ws := (ws s)\<lparr>sent := sent (ws s) @ [d]\<rparr>\<rparr> else s))"

definition attempt :: "frame \<Rightarrow> string \<times> session \<Rightarrow> effect" where
  "attempt d = (\<lambda>(cid, s). if ready (ws s) then Ws_send cid d else Ws_send_threw cid d)"

section \<open>The characters of a token\<close>

text \<open>What \<open>makeToken\<close> makes of the array, and what its two replacements do to one
  character.\<close>

definition token_of :: "8 word list \<Rightarrow> string" where
  "token_of a =
     replaceAll CHR ''='' '''' (replaceAll CHR ''/'' ''_'' (replaceAll CHR ''+'' ''-'' (btoa a)))"

definition url_char :: "char \<Rightarrow> char" where
  "url_char c = (if c = CHR ''+'' then CHR ''-'' else if c = CHR ''/'' then CHR ''_'' else c)"

section \<open>Query parameters and the invite set, as the connection handler sees them\<close>

text \<open>
  \<open>clamped p n\<close> is what \<open>clampStr\<close> returns on a query parameter, \<open>clamped_or p d n\<close>
  is \<open>clampStr(p || d, n) || d\<close>, and \<open>invites_of\<close> is
  \<open>(await storage.get("invites")) || {}\<close>.
\<close>

definition clamped :: "string option \<Rightarrow> nat \<Rightarrow> string" where
  "clamped p n = take n (trim (case p of None \<Rightarrow> [] | Some s \<Rightarrow> s))"

definition invites_of :: "actor \<Rightarrow> string \<rightharpoonup> invite" where
  "invites_of st = (case stored_invites st of None \<Rightarrow> Map.empty | Some m \<Rightarrow> m)"

definition clamped_or :: "string option \<Rightarrow> string \<Rightarrow> nat \<Rightarrow> string" where
  "clamped_or p d n = or_str (take n (trim (or_str (case p of None \<Rightarrow> [] | Some s \<Rightarrow> s) d))) d"

section \<open>Who joined and who was disconnected in a run of events\<close>





fun fresh_sessions :: "string list \<Rightarrow> event list \<Rightarrow> bool" where
  "fresh_sessions gone [] = True"
| "fresh_sessions gone (Connect t n r cid # evs) = (cid \<notin> set gone \<and> fresh_sessions gone evs)"
| "fresh_sessions gone (Close cid # evs) = fresh_sessions (cid # gone) evs"
| "fresh_sessions gone (e # evs) = fresh_sessions gone evs"

text \<open>
  \<open>unique_sessions seen evs\<close>: every Connect comes with an id that no earlier Connect had,
  and every Close names the id of an earlier Connect (the listener that fires it is
  registered by that Connect, line 172).
\<close>

fun unique_sessions :: "string list \<Rightarrow> event list \<Rightarrow> bool" where
  "unique_sessions seen [] = True"
| "unique_sessions seen (Connect t n r cid # evs) =
     (cid \<notin> set seen \<and> unique_sessions (cid # seen) evs)"
| "unique_sessions seen (Close cid # evs) = (cid \<in> set seen \<and> unique_sessions seen evs)"
| "unique_sessions seen (e # evs) = unique_sessions seen evs"

section \<open>The parts of a set-focus message, and a well-formed focus\<close>

text \<open>
  The three expressions of the \<open>set_focus\<close> branch of the message listener:
  \<open>msg.payload || {}\<close>, \<open>payload.type === "text" ? "text" : "question"\<close> and
  \<open>payload.content || ""\<close>. A focus is well formed when its type is one of the two and
  its content is not longer than the cap; \<open>sets_focus\<close> picks the events that reach the
  \<open>set_focus\<close> branch.
\<close>

definition payload_of :: "json \<Rightarrow> json" where
  "payload_of msg =
     (if truthy (get_prop msg ''payload'') then the (get_prop msg ''payload'') else JObj [])"

definition type_of_payload :: "json \<Rightarrow> string" where
  "type_of_payload p = (if get_prop p ''type'' = Some (JStr ''text'') then ''text'' else ''question'')"

definition content_of_payload :: "json \<Rightarrow> json option" where
  "content_of_payload p =
     (if truthy (get_prop p ''content'') then get_prop p ''content'' else Some (JStr ''''))"

definition wf_focus :: "focus \<Rightarrow> bool" where
  "wf_focus f = ((f_type f = ''question'' \<or> f_type f = ''text'') \<and> length (content f) \<le> 4000)"

definition room_ok :: "actor \<Rightarrow> bool" where
  "room_ok st = (case stored_room st of None \<Rightarrow> True | Some r \<Rightarrow> wf_focus (focus r))"

fun sets_focus :: "event \<Rightarrow> bool" where
  "sets_focus (Message cid (Some msg)) = (get_prop msg ''kind'' = Some (JStr ''set_focus''))"
| "sets_focus e = False"

section \<open>Sample data for the worked instances\<close>

definition demo_clock :: "nat \<Rightarrow> int" where
  "demo_clock n = 1000 + int n"

definition ada :: participant where
  "ada = \<lparr>p_id = ''s-ada'', p_name = ''Ada'', p_role = ''Host'', joinedAt = 1001\<rparr>"

definition new_room :: actor where
  "new_room = init (RoomDO None None demo_clock)"

definition demo_hub :: actor where
  "demo_hub = new_room\<lparr>sessions :=
     [(''s-ada'', \<lparr>ws = \<lparr>ready = True, sent = []\<rparr>, s_name = ''Ada'', s_role = ''Host''\<rparr>),
      (''s-bob'', \<lparr>ws = \<lparr>ready = False, sent = []\<rparr>, s_name = ''Bob'', s_role = ''Gast''\<rparr>),
      (''s-cyd'', \<lparr>ws = \<lparr>ready = True, sent = []\<rparr>, s_name = ''Cyd'', s_role = ''Gast''\<rparr>)]\<rparr>"

definition demo_focus :: focus where
  "demo_focus = \<lparr>f_type = ''text'', content = ''Hello'', author = ''s-ada'',
                  authorName = ''Ada'', f_ts = 1010\<rparr>"

definition demo_rng :: "nat \<Rightarrow> 8 word" where
  "demo_rng n = (if n < 16 then of_nat n else if n = 16 then 251 else 255)"

definition invited_room :: actor where
  "invited_room = snd (invite demo_rng new_room)"

definition expiry_room :: actor where
  "expiry_room = invited_room\<lparr>clock := \<lambda>n. 901002\<rparr>"

definition in_time_room :: actor where
  "in_time_room = invited_room\<lparr>clock := \<lambda>n. 901001\<rparr>"

definition later_room :: actor where
  "later_room = invited_room\<lparr>clock := \<lambda>n. 901002 + int n\<rparr>"

definition bad_set_focus :: json where
  "bad_set_focus =
     JObj [(''kind'', JStr ''set_focus''),
           (''payload'', JObj [(''type'', JStr ''text''),
                               (''content'', JObj [(''toString'', JNull)])])]"

definition good_set_focus :: json where
  "good_set_focus =
     JObj [(''kind'', JStr ''set_focus''),
           (''payload'', JObj [(''type'', JStr ''poll''), (''content'', JStr ''  Hello '')])]"

definition quiet_events :: "event list" where
  "quiet_events =
     [Invite demo_rng,
      Connect (Some ''AAECAwQFBgcICQoLDA0OD_v_'') (Some ''Ada'') (Some ''Host'') ''s-ada'',
      Message ''s-ada'' None,
      Message ''s-ada'' (Some (JObj [(''kind'', JStr ''leave'')])),
      Close ''s-ada'']"

definition busy_events :: "event list" where
  "busy_events =
     [Invite demo_rng,
      Connect (Some ''AAECAwQFBgcICQoLDA0OD_v_'') (Some ''Ada'') (Some ''Host'') ''s-ada'',
      Message ''s-ada'' (Some good_set_focus),
      Message ''s-ada'' (Some bad_set_focus),
      Close ''s-ada'']"

definition text_hello :: json where
  "text_hello =
     JObj [(''kind'', JStr ''set_focus''),
           (''payload'', JObj [(''type'', JStr ''text''), (''content'', JStr ''Hello'')])]"

definition scenario :: "event list" where
  "scenario =
     [Invite demo_rng,
      Connect (Some ''AAECAwQFBgcICQoLDA0OD_v_'') (Some ''Ada'') (Some ''Host'') ''s-ada'',
      Message ''s-ada'' (Some text_hello)]"


section \<open>Room state: basic facts\<close>

lemma getRoom_Some: "stored_room st = Some r \<Longrightarrow> getRoom st = (r, st)"
  by (simp add: getRoom_def)

lemma getRoom_stored: "stored_room (snd (getRoom st)) = Some (fst (getRoom st))"
  by (simp add: getRoom_def Date_now_def storage_put_room_def Let_def split: option.splits)

lemma getRoom_twice: "getRoom (snd (getRoom st)) = (fst (getRoom st), snd (getRoom st))"
  by (simp add: getRoom_Some getRoom_stored)

lemma getRoom_None_timeline:
  "stored_room st = None \<Longrightarrow>
   timeline (fst (getRoom st)) = [\<lparr>te_ts = clock st (reads st), te_kind = room_started, te_by = ''''\<rparr>]"
  by (simp add: getRoom_def Date_now_def Let_def)

lemma addParticipant_Some:
  "stored_room st = Some r \<Longrightarrow>
   addParticipant p st =
     storage_put_room
       (r\<lparr>participants := participants r @ [p],
          timeline := timeline r @ [\<lparr>te_ts = clock st (reads st), te_kind = join, te_by = p_id p\<rparr>]\<rparr>)
       (st\<lparr>reads := Suc (reads st)\<rparr>)"
  by (simp add: addParticipant_def getRoom_def Date_now_def Let_def)

lemma removeParticipant_Some:
  "stored_room st = Some r \<Longrightarrow>
   removeParticipant i st =
     storage_put_room
       (r\<lparr>participants := filter (\<lambda>x. p_id x \<noteq> i) (participants r),
          timeline := timeline r @ [\<lparr>te_ts = clock st (reads st), te_kind = leave, te_by = i\<rparr>]\<rparr>)
       (st\<lparr>reads := Suc (reads st)\<rparr>)"
  by (simp add: removeParticipant_def getRoom_def Date_now_def Let_def)

lemma setFocus_Some:
  "stored_room st = Some r \<Longrightarrow>
   setFocus byId type c st =
     storage_put_room
       (r\<lparr>focus := \<lparr>f_type = type, content = c, author = byId,
                     authorName = (case map_of (sessions st) byId of None \<Rightarrow> ''''
                                   | Some s \<Rightarrow> or_str (s_name s) ''''),
                     f_ts = clock st (reads st)\<rparr>,
          timeline := timeline r @
             [\<lparr>te_ts = clock st (Suc (reads st)), te_kind = set_focus, te_by = byId\<rparr>]\<rparr>)
       (st\<lparr>reads := Suc (Suc (reads st))\<rparr>)"
  by (simp add: setFocus_def getRoom_def Date_now_def Let_def)

lemma mutate_lazy: "mutate (snd (getRoom st)) m = mutate st m"
  by (cases m)
     (simp_all add: addParticipant_def removeParticipant_def setFocus_def getRoom_twice
        split_beta getRoom_def Date_now_def storage_put_room_def Let_def split: option.splits)

lemma mutate_Some:
  assumes "stored_room st = Some r"
  shows "\<exists>r' t. stored_room (mutate st m) = Some r'
          \<and> timeline r' = timeline r @ [\<lparr>te_ts = t, te_kind = mutation_kind m, te_by = mutation_by m\<rparr>]
          \<and> effects (mutate st m) = effects st @ [Put_room r']
          \<and> (case m of
                AddParticipant p \<Rightarrow> participants r' = participants r @ [p] \<and> focus r' = focus r
              | RemoveParticipant i \<Rightarrow>
                  participants r' = filter (\<lambda>x. p_id x \<noteq> i) (participants r) \<and> focus r' = focus r
              | SetFocus b ty c \<Rightarrow>
                  participants r' = participants r \<and> f_type (focus r') = ty \<and>
                  content (focus r') = c \<and> author (focus r') = b)"
proof (cases m)
  case (AddParticipant p)
  then show ?thesis
    using assms by (simp add: addParticipant_Some storage_put_room_def)
next
  case (RemoveParticipant i)
  then show ?thesis
    using assms by (simp add: removeParticipant_Some storage_put_room_def)
next
  case (SetFocus b ty c)
  then show ?thesis
    using assms by (simp add: setFocus_Some storage_put_room_def)
qed

lemma mutations_Some:
  "stored_room st = Some r \<Longrightarrow>
   \<exists>r'. stored_room (mutations ms st) = Some r' \<and>
        map te_kind (timeline r') = map te_kind (timeline r) @ map mutation_kind ms \<and>
        map te_by (timeline r') = map te_by (timeline r) @ map mutation_by ms"
proof (induction ms arbitrary: st r)
  case Nil
  then show ?case by (simp add: mutations_def)
next
  case (Cons m ms)
  from mutate_Some[OF Cons.prems, of m] obtain r1 t where
    r1: "stored_room (mutate st m) = Some r1"
    and tl: "timeline r1 = timeline r @ [\<lparr>te_ts = t, te_kind = mutation_kind m, te_by = mutation_by m\<rparr>]"
    by blast
  from Cons.IH[OF r1] obtain r' where
    "stored_room (mutations ms (mutate st m)) = Some r'"
    "map te_kind (timeline r') = map te_kind (timeline r1) @ map mutation_kind ms"
    "map te_by (timeline r') = map te_by (timeline r1) @ map mutation_by ms"
    by blast
  then show ?case using tl by (simp add: mutations_def)
qed

lemma init_room:
  "stored_room (init st) =
     Some \<lparr>startedAt = clock st (reads st),
           focus = \<lparr>f_type = ''question'', content = '''', author = '''', authorName = '''',
                     f_ts = clock st (reads st)\<rparr>,
           participants = [],
           timeline = [\<lparr>te_ts = clock st (reads st), te_kind = room_started, te_by = ''''\<rparr>]\<rparr>"
  by (simp add: init_def Date_now_def storage_put_room_def storage_put_invites_def Let_def)

text \<open>
  Claim C1. Each of the three mutations, on a room that exists, appends exactly one
  timeline event, of the kind of the mutation and \<open>by\<close> its subject, and writes the room
  once: the one \<open>storage.put\<close> carries the changed state together with the longer
  timeline. So after \<open>N\<close> mutations the timeline lists \<open>room_started\<close> and then the
  kinds of the mutations, \<open>N + 1\<close> events, whether the room was made by \<open>/init\<close> or by
  the first \<open>_getRoom\<close> on an empty storage.
\<close>

theorem every_mutation_appends_one_event:
  assumes "stored_room st = Some r"
  shows "(\<exists>r' t. stored_room (mutate st m) = Some r'
          \<and> timeline r' = timeline r @ [\<lparr>te_ts = t, te_kind = mutation_kind m, te_by = mutation_by m\<rparr>]
          \<and> effects (mutate st m) = effects st @ [Put_room r']
          \<and> (case m of
                AddParticipant p \<Rightarrow> participants r' = participants r @ [p] \<and> focus r' = focus r
              | RemoveParticipant i \<Rightarrow>
                  participants r' = filter (\<lambda>x. p_id x \<noteq> i) (participants r) \<and> focus r' = focus r
              | SetFocus b ty c \<Rightarrow>
                  participants r' = participants r \<and> f_type (focus r') = ty \<and>
                  content (focus r') = c \<and> author (focus r') = b))
       \<and> (\<exists>r0. stored_room (mutations ms (init st0)) = Some r0 \<and>
                map te_kind (timeline r0) = room_started # map mutation_kind ms \<and>
                length (timeline r0) = length ms + 1)
       \<and> (stored_room st1 = None \<longrightarrow>
            (\<exists>r1. stored_room (mutations ms (snd (getRoom st1))) = Some r1 \<and>
                map te_kind (timeline r1) = room_started # map mutation_kind ms \<and>
                length (timeline r1) = length ms + 1))
       \<and> mutate (snd (getRoom st1)) m = mutate st1 m"
proof (intro conjI impI)
  show "mutate (snd (getRoom st1)) m = mutate st1 m"
    by (rule mutate_lazy)
next
  show "\<exists>r' t. stored_room (mutate st m) = Some r'
          \<and> timeline r' = timeline r @ [\<lparr>te_ts = t, te_kind = mutation_kind m, te_by = mutation_by m\<rparr>]
          \<and> effects (mutate st m) = effects st @ [Put_room r']
          \<and> (case m of
                AddParticipant p \<Rightarrow> participants r' = participants r @ [p] \<and> focus r' = focus r
              | RemoveParticipant i \<Rightarrow>
                  participants r' = filter (\<lambda>x. p_id x \<noteq> i) (participants r) \<and> focus r' = focus r
              | SetFocus b ty c \<Rightarrow>
                  participants r' = participants r \<and> f_type (focus r') = ty \<and>
                  content (focus r') = c \<and> author (focus r') = b)"
    by (rule mutate_Some[OF assms])
next
  from mutations_Some[OF init_room, of ms st0] obtain r0 where
    a: "stored_room (mutations ms (init st0)) = Some r0"
    and b: "map te_kind (timeline r0) = room_started # map mutation_kind ms"
    by auto
  from b have "length (map te_kind (timeline r0)) = length (room_started # map mutation_kind ms)"
    by simp
  then have "length (timeline r0) = length ms + 1" by simp
  with a b show "\<exists>r0. stored_room (mutations ms (init st0)) = Some r0 \<and>
                map te_kind (timeline r0) = room_started # map mutation_kind ms \<and>
                length (timeline r0) = length ms + 1" by auto
next
  assume none: "stored_room st1 = None"
  from mutations_Some[OF getRoom_stored, of ms st1] getRoom_None_timeline[OF none]
  obtain r1 where
    a: "stored_room (mutations ms (snd (getRoom st1))) = Some r1"
    and b: "map te_kind (timeline r1) = room_started # map mutation_kind ms"
    by auto
  from b have "length (map te_kind (timeline r1)) = length (room_started # map mutation_kind ms)"
    by simp
  then have "length (timeline r1) = length ms + 1" by simp
  with a b show "\<exists>r1. stored_room (mutations ms (snd (getRoom st1))) = Some r1 \<and>
                map te_kind (timeline r1) = room_started # map mutation_kind ms \<and>
                length (timeline r1) = length ms + 1" by auto
qed

theorem every_mutation_appends_one_event_witness:
  "stored_room new_room \<noteq> None \<and>
   stored_room (RoomDO None None demo_clock) = None \<and>
   (\<exists>r' t. stored_room (mutate new_room (AddParticipant ada)) = Some r' \<and>
       map te_kind (timeline r') = [room_started, join] \<and>
       effects (mutate new_room (AddParticipant ada)) = effects new_room @ [Put_room r'] \<and>
       participants r' = [ada]) \<and>
   (\<exists>r0. stored_room (mutations [AddParticipant ada, SetFocus ''s-ada'' ''text'' ''Hello'',
             RemoveParticipant ''s-ada''] (init (RoomDO None None demo_clock))) = Some r0 \<and>
       map te_kind (timeline r0) = [room_started, join, set_focus, leave] \<and>
       length (timeline r0) = 4) \<and>
   (\<exists>r1. stored_room (mutations [AddParticipant ada, SetFocus ''s-ada'' ''text'' ''Hello'',
             RemoveParticipant ''s-ada''] (snd (getRoom (RoomDO None None demo_clock)))) = Some r1 \<and>
       length (timeline r1) = 4)"
proof -
  have h: "stored_room new_room =
     Some \<lparr>startedAt = 1000,
           focus = \<lparr>f_type = ''question'', content = [], author = [], authorName = [],
                     f_ts = 1000\<rparr>,
           participants = [],
           timeline = [\<lparr>te_ts = 1000, te_kind = room_started, te_by = []\<rparr>]\<rparr>"
    by (simp add: new_room_def init_room RoomDO_def demo_clock_def)
  have h1: "stored_room (RoomDO None None demo_clock) = None"
    by (simp add: RoomDO_def)
  from every_mutation_appends_one_event[OF h, of "AddParticipant ada"
      "[AddParticipant ada, SetFocus ''s-ada'' ''text'' ''Hello'', RemoveParticipant ''s-ada'']"
      "RoomDO None None demo_clock" "RoomDO None None demo_clock"] h h1
  show ?thesis by auto
qed


section \<open>The two ways a room comes to exist\<close>

lemma getRoom_None:
  "stored_room st = None \<Longrightarrow>
   getRoom st =
     (\<lparr>startedAt = clock st (reads st),
       focus = \<lparr>f_type = ''question'', content = '''', author = '''', authorName = '''',
                 f_ts = clock st (reads st)\<rparr>,
       participants = [],
       timeline = [\<lparr>te_ts = clock st (reads st), te_kind = room_started, te_by = ''''\<rparr>]\<rparr>,
      storage_put_room
        \<lparr>startedAt = clock st (reads st),
          focus = \<lparr>f_type = ''question'', content = '''', author = '''', authorName = '''',
                    f_ts = clock st (reads st)\<rparr>,
          participants = [],
          timeline = [\<lparr>te_ts = clock st (reads st), te_kind = room_started, te_by = ''''\<rparr>]\<rparr>
        (st\<lparr>reads := Suc (reads st)\<rparr>))"
  by (simp add: getRoom_def Date_now_def Let_def)

text \<open>
  Claim C7. With the same reading of the clock, \<open>/init\<close> and the first \<open>_getRoom\<close> on a
  storage without a room build the same room, and each stores what it built:
  \<open>startedAt\<close> is that reading, the focus is the initial one, nobody participates, and
  the timeline is the single \<open>room_started\<close> event.
\<close>

theorem init_and_lazy_creation_agree:
  assumes "stored_room b = None" and "clock a (reads a) = clock b (reads b)"
  shows "stored_room (init a) = Some (fst (getRoom b)) \<and>
         stored_room (snd (getRoom b)) = Some (fst (getRoom b)) \<and>
         Put_room (fst (getRoom b)) \<in> set (effects (init a)) \<and>
         Put_room (fst (getRoom b)) \<in> set (effects (snd (getRoom b))) \<and>
         fst (getRoom b) =
           \<lparr>startedAt = clock b (reads b),
             focus = \<lparr>f_type = ''question'', content = '''', author = '''', authorName = '''',
                       f_ts = clock b (reads b)\<rparr>,
             participants = [],
             timeline = [\<lparr>te_ts = clock b (reads b), te_kind = room_started, te_by = ''''\<rparr>]\<rparr>"
  using assms
  by (simp add: getRoom_None init_def Date_now_def storage_put_room_def
      storage_put_invites_def Let_def)

theorem init_and_lazy_creation_agree_witness:
  "stored_room (RoomDO None None demo_clock) = None \<and>
   stored_room (init (RoomDO (Some \<lparr>startedAt = 5, focus = \<lparr>f_type = ''text'', content = ''x'',
        author = ''a'', authorName = ''A'', f_ts = 7\<rparr>, participants = [ada], timeline = []\<rparr>)
        None demo_clock))
     = Some (fst (getRoom (RoomDO None None demo_clock))) \<and>
   timeline (fst (getRoom (RoomDO None None demo_clock))) =
     [\<lparr>te_ts = 1000, te_kind = room_started, te_by = ''''\<rparr>]"
proof -
  have h: "stored_room (RoomDO None None demo_clock) = None"
    by (simp add: RoomDO_def)
  have c: "clock (RoomDO (Some \<lparr>startedAt = 5, focus = \<lparr>f_type = ''text'', content = ''x'',
        author = ''a'', authorName = ''A'', f_ts = 7\<rparr>, participants = [ada], timeline = []\<rparr>)
        None demo_clock) (reads (RoomDO (Some \<lparr>startedAt = 5, focus = \<lparr>f_type = ''text'',
        content = ''x'', author = ''a'', authorName = ''A'', f_ts = 7\<rparr>, participants = [ada],
        timeline = []\<rparr>) None demo_clock))
      = clock (RoomDO None None demo_clock) (reads (RoomDO None None demo_clock))"
    by (simp add: RoomDO_def)
  from init_and_lazy_creation_agree[OF h c] h
  show ?thesis by (simp add: RoomDO_def demo_clock_def)
qed

section \<open>Removing somebody who is not there\<close>

text \<open>
  Claim C10. Removing an id that no participant has leaves the participants as they were,
  and still appends a \<open>leave\<close> event by that id and stores the room; done twice, the
  roster is the same and the timeline has grown by two.
\<close>

theorem remove_absent_participant:
  assumes "i \<notin> set (map p_id (participants (fst (getRoom st))))"
  shows "\<exists>r' t. stored_room (removeParticipant i st) = Some r' \<and>
           participants r' = participants (fst (getRoom st)) \<and>
           timeline r' = timeline (fst (getRoom st)) @ [\<lparr>te_ts = t, te_kind = leave, te_by = i\<rparr>] \<and>
           last (effects (removeParticipant i st)) = Put_room r' \<and>
           (\<exists>r'' t'. stored_room (removeParticipant i (removeParticipant i st)) = Some r'' \<and>
              participants r'' = participants r' \<and>
              timeline r'' = timeline r' @ [\<lparr>te_ts = t', te_kind = leave, te_by = i\<rparr>])"
proof -
  let ?r = "fst (getRoom st)" and ?st1 = "snd (getRoom st)"
  have f: "filter (\<lambda>x. p_id x \<noteq> i) (participants ?r) = participants ?r"
    using assms by (auto simp: filter_id_conv)
  have m: "removeParticipant i st = removeParticipant i ?st1"
    using mutate_lazy[of st "RemoveParticipant i"] by simp
  let ?r1 = "?r\<lparr>participants := participants ?r,
                  timeline := timeline ?r @
                    [\<lparr>te_ts = clock ?st1 (reads ?st1), te_kind = leave, te_by = i\<rparr>]\<rparr>"
  let ?st2 = "storage_put_room ?r1 (?st1\<lparr>reads := Suc (reads ?st1)\<rparr>)"
  have one: "removeParticipant i st = ?st2"
    unfolding m by (simp add: removeParticipant_Some[OF getRoom_stored] f)
  have s2: "stored_room ?st2 = Some ?r1"
    by (simp add: storage_put_room_def)
  have a: "stored_room (removeParticipant i st) = Some ?r1"
    unfolding one by (rule s2)
  have b: "last (effects (removeParticipant i st)) = Put_room ?r1"
    unfolding one by (simp add: storage_put_room_def)
  have c: "\<exists>r'' t'. stored_room (removeParticipant i (removeParticipant i st)) = Some r'' \<and>
              participants r'' = participants ?r1 \<and>
              timeline r'' = timeline ?r1 @ [\<lparr>te_ts = t', te_kind = leave, te_by = i\<rparr>]"
    unfolding one removeParticipant_Some[OF s2] by (simp add: storage_put_room_def f)
  have d: "participants ?r1 = participants ?r"
    and e: "timeline ?r1 = timeline ?r @
         [\<lparr>te_ts = clock ?st1 (reads ?st1), te_kind = leave, te_by = i\<rparr>]"
    by simp_all
  from a b c d e show ?thesis by blast
qed

theorem remove_absent_participant_witness:
  "''s-bob'' \<notin> set (map p_id (participants (fst (getRoom (addParticipant ada new_room))))) \<and>
   (\<exists>r'. stored_room (removeParticipant ''s-bob'' (addParticipant ada new_room)) = Some r' \<and>
      participants r' = [ada] \<and>
      map te_kind (timeline r') = [room_started, join, leave] \<and>
      te_by (last (timeline r')) = ''s-bob'')"
proof -
  have r: "stored_room new_room =
     Some \<lparr>startedAt = 1000,
           focus = \<lparr>f_type = ''question'', content = [], author = [], authorName = [],
                     f_ts = 1000\<rparr>,
           participants = [],
           timeline = [\<lparr>te_ts = 1000, te_kind = room_started, te_by = []\<rparr>]\<rparr>"
    by (simp add: new_room_def init_room RoomDO_def demo_clock_def)
  have g: "fst (getRoom (addParticipant ada new_room)) =
       \<lparr>startedAt = 1000,
         focus = \<lparr>f_type = ''question'', content = [], author = [], authorName = [],
                   f_ts = 1000\<rparr>,
         participants = [ada],
         timeline = [\<lparr>te_ts = 1000, te_kind = room_started, te_by = []\<rparr>,
                     \<lparr>te_ts = clock new_room (reads new_room), te_kind = join, te_by = ''s-ada''\<rparr>]\<rparr>"
    by (simp add: addParticipant_Some[OF r] storage_put_room_def getRoom_def ada_def)
  have h: "''s-bob'' \<notin> set (map p_id (participants (fst (getRoom (addParticipant ada new_room)))))"
    unfolding g by (simp add: ada_def)
  from remove_absent_participant[OF h] h
  show ?thesis by (auto simp: g)
qed

section \<open>Broadcast\<close>

lemma send_all_eq: "send_all d ss = (map (deliver d) ss, map (attempt d) ss)"
  by (induction ss) (auto simp: deliver_def attempt_def ws_send_def)

lemma broadcast_eq:
  "broadcast m st =
     st\<lparr>effects := effects st @ Stringify m # map (attempt (Frame m)) (sessions st),
        sessions := map (deliver (Frame m)) (sessions st)\<rparr>"
  by (simp add: broadcast_def JSON_stringify_def send_all_eq)

lemma is_delivery_attempt: "is_delivery (attempt d x) = ready (ws (snd x))"
  by (cases x) (simp add: attempt_def)

lemma is_stringify_attempt: "\<not> is_stringify (attempt d x)"
  by (cases x) (simp add: attempt_def)

lemma count_deliveries:
  "length (filter is_delivery (map (attempt d) ss)) =
   length ss - length (filter (\<lambda>(c, s). \<not> ready (ws s)) ss)"
proof -
  have a: "filter is_delivery (map (attempt d) ss) =
           map (attempt d) (filter (\<lambda>x. ready (ws (snd x))) ss)"
    by (simp add: filter_map o_def is_delivery_attempt)
  have b: "(\<lambda>(c, s). \<not> ready (ws s)) = (\<lambda>x :: string \<times> session. \<not> ready (ws (snd x)))"
    by (simp add: fun_eq_iff)
  from sum_length_filter_compl[of "\<lambda>x. ready (ws (snd x))" ss]
  show ?thesis unfolding a b by simp
qed

lemma no_stringify_in_attempts: "filter is_stringify (map (attempt d) ss) = []"
  by (simp add: filter_empty_conv is_stringify_attempt)

text \<open>
  Claim C6. \<open>_broadcast\<close> calls \<open>JSON.stringify\<close> once and then tries \<open>send\<close> on every
  registered connection, in the order of the Map, with the one frame. A send that throws
  changes nothing and stops nothing: every open connection receives the frame whatever the
  others do, a connection that is not open is left as it was, and the number of deliveries
  is the number of connections less the failing ones.
\<close>

theorem broadcast_best_effort:
  "effects (broadcast m st) =
     effects st @ Stringify m #
       map (\<lambda>(cid, s). if ready (ws s) then Ws_send cid (Frame m) else Ws_send_threw cid (Frame m))
         (sessions st) \<and>
   length (filter is_stringify (drop (length (effects st)) (effects (broadcast m st)))) = 1 \<and>
   length (filter is_delivery (drop (length (effects st)) (effects (broadcast m st)))) =
     length (sessions st) - length (filter (\<lambda>(c, s). \<not> ready (ws s)) (sessions st)) \<and>
   map fst (sessions (broadcast m st)) = map fst (sessions st) \<and>
   (\<forall>k < length (sessions st).
      sent (ws (snd (sessions (broadcast m st) ! k))) =
        (if ready (ws (snd (sessions st ! k)))
         then sent (ws (snd (sessions st ! k))) @ [Frame m]
         else sent (ws (snd (sessions st ! k))))) \<and>
   (\<forall>j < length (sessions st). \<not> ready (ws (snd (sessions st ! j))) \<longrightarrow>
      (\<forall>k < length (sessions st). k \<noteq> j \<and> ready (ws (snd (sessions st ! k))) \<longrightarrow>
         sent (ws (snd (sessions (broadcast m st) ! k))) =
           sent (ws (snd (sessions st ! k))) @ [Frame m])) \<and>
   stored_room (broadcast m st) = stored_room st \<and>
   stored_invites (broadcast m st) = stored_invites st"
proof -
  have e: "effects (broadcast m st) =
     effects st @ Stringify m # map (attempt (Frame m)) (sessions st)"
    by (simp add: broadcast_eq)
  have s: "sessions (broadcast m st) = map (deliver (Frame m)) (sessions st)"
    by (simp add: broadcast_eq)
  have k: "sent (ws (snd (sessions (broadcast m st) ! k))) =
        (if ready (ws (snd (sessions st ! k)))
         then sent (ws (snd (sessions st ! k))) @ [Frame m]
         else sent (ws (snd (sessions st ! k))))" if "k < length (sessions st)" for k
    using that unfolding s by (cases "sessions st ! k") (simp add: deliver_def)
  have 1: "effects (broadcast m st) =
     effects st @ Stringify m #
       map (\<lambda>(cid, s). if ready (ws s) then Ws_send cid (Frame m) else Ws_send_threw cid (Frame m))
         (sessions st)"
    unfolding e attempt_def ..
  have 2: "length (filter is_stringify (drop (length (effects st)) (effects (broadcast m st)))) = 1"
    unfolding e by (simp add: no_stringify_in_attempts)
  have 3: "length (filter is_delivery (drop (length (effects st)) (effects (broadcast m st)))) =
     length (sessions st) - length (filter (\<lambda>(c, s). \<not> ready (ws s)) (sessions st))"
    unfolding e using count_deliveries[of "Frame m" "sessions st"] by simp
  have 4: "map fst (sessions (broadcast m st)) = map fst (sessions st)"
    unfolding s by (simp add: deliver_def split_beta)
  have 5: "stored_room (broadcast m st) = stored_room st"
    and 6: "stored_invites (broadcast m st) = stored_invites st"
    by (simp_all add: broadcast_eq)
  from 1 2 3 4 5 6 k show ?thesis by simp
qed

theorem broadcast_best_effort_witness:
  "length (sessions demo_hub) = 3 \<and>
   \<not> ready (ws (snd (sessions demo_hub ! 1))) \<and>
   map (\<lambda>(c, s). (c, sent (ws s))) (sessions (broadcast (Focus demo_focus) demo_hub)) =
     [(''s-ada'', [Frame (Focus demo_focus)]), (''s-bob'', []),
      (''s-cyd'', [Frame (Focus demo_focus)])] \<and>
   drop (length (effects demo_hub)) (effects (broadcast (Focus demo_focus) demo_hub)) =
     [Stringify (Focus demo_focus), Ws_send ''s-ada'' (Frame (Focus demo_focus)),
      Ws_send_threw ''s-bob'' (Frame (Focus demo_focus)),
      Ws_send ''s-cyd'' (Frame (Focus demo_focus))]"
proof -
  have l: "length (sessions demo_hub) = 3" and n: "\<not> ready (ws (snd (sessions demo_hub ! 1)))"
    by (simp_all add: demo_hub_def)
  have s: "sessions demo_hub =
     [(''s-ada'', \<lparr>ws = \<lparr>ready = True, sent = []\<rparr>, s_name = ''Ada'', s_role = ''Host''\<rparr>),
      (''s-bob'', \<lparr>ws = \<lparr>ready = False, sent = []\<rparr>, s_name = ''Bob'', s_role = ''Gast''\<rparr>),
      (''s-cyd'', \<lparr>ws = \<lparr>ready = True, sent = []\<rparr>, s_name = ''Cyd'', s_role = ''Gast''\<rparr>)]"
    by (simp add: demo_hub_def)
  note t = broadcast_best_effort[of "Focus demo_focus" demo_hub]
  from t have e: "effects (broadcast (Focus demo_focus) demo_hub) =
     effects demo_hub @
     [Stringify (Focus demo_focus), Ws_send ''s-ada'' (Frame (Focus demo_focus)),
      Ws_send_threw ''s-bob'' (Frame (Focus demo_focus)),
      Ws_send ''s-cyd'' (Frame (Focus demo_focus))]"
    by (simp add: s)
  from t have f: "map fst (sessions (broadcast (Focus demo_focus) demo_hub)) =
      [''s-ada'', ''s-bob'', ''s-cyd'']"
    by (simp add: s)
  from t l have g: "\<forall>k<3. sent (ws (snd (sessions (broadcast (Focus demo_focus) demo_hub) ! k))) =
        (if ready (ws (snd (sessions demo_hub ! k)))
         then sent (ws (snd (sessions demo_hub ! k))) @ [Frame (Focus demo_focus)]
         else sent (ws (snd (sessions demo_hub ! k))))"
    by simp
  obtain a b c where abc: "sessions (broadcast (Focus demo_focus) demo_hub) = [a, b, c]"
    using f by (auto simp: map_eq_Cons_conv)
  have g0: "sent (ws (snd a)) = [Frame (Focus demo_focus)]"
    and g1: "sent (ws (snd b)) = []"
    and g2: "sent (ws (snd c)) = [Frame (Focus demo_focus)]"
    using g[rule_format, of 0] g[rule_format, of 1] g[rule_format, of 2]
    by (simp_all add: abc s)
  from f abc g0 g1 g2 have m: "map (\<lambda>(c, s). (c, sent (ws s))) (sessions (broadcast (Focus demo_focus) demo_hub)) =
     [(''s-ada'', [Frame (Focus demo_focus)]), (''s-bob'', []),
      (''s-cyd'', [Frame (Focus demo_focus)])]"
    by (simp add: split_beta)
  from l n m e show ?thesis by simp
qed

section \<open>Invite tokens: shape of a token, and what issuing one stores\<close>

text \<open>The bytes are recovered from the four sextets of a group; the masks are powers of
  two less one, and two bytes are equal when their eight bits are.\<close>

lemma masks: "(3 :: 8 word) = mask 2" "(15 :: 8 word) = mask 4" "(63 :: 8 word) = mask 6"
  by (simp_all add: mask_eq_exp_minus_1)

lemma byte_eqI:
  assumes "\<And>n. n \<in> {0, 1, 2, 3, 4, 5, 6, 7} \<Longrightarrow> bit x n = bit y n"
  shows "x = (y :: 8 word)"
proof (rule bit_word_eqI)
  fix n :: nat
  assume "n < LENGTH(8)"
  then have "n \<in> {0, 1, 2, 3, 4, 5, 6, 7}" by auto
  then show "bit x n = bit y n" by (rule assms)
qed

lemma first_byte:
  "push_bit 2 (drop_bit 2 a) OR drop_bit 4 (push_bit 4 (a AND 3) OR drop_bit 4 b) = (a :: 8 word)"
  unfolding masks by (rule byte_eqI, elim insertE emptyE) (simp_all add: bit_simps)

lemma second_byte:
  "push_bit 4 ((push_bit 4 (a AND 3) OR drop_bit 4 b) AND 15) OR
   drop_bit 2 (push_bit 2 (b AND 15) OR drop_bit 6 c) = (b :: 8 word)"
  unfolding masks by (rule byte_eqI, elim insertE emptyE) (simp_all add: bit_simps)

lemma third_byte:
  "push_bit 6 ((push_bit 2 (b AND 15) OR drop_bit 6 c) AND 3) OR (c AND 63) = (c :: 8 word)"
  unfolding masks by (rule byte_eqI, elim insertE emptyE) (simp_all add: bit_simps)

lemma sextet_bound: "take_bit 6 x = x \<Longrightarrow> unat (x :: 8 word) < 64"
proof -
  assume "take_bit 6 x = x"
  then have "unat x = unat (take_bit 6 x)" by simp
  also have "\<dots> = take_bit 6 (unat x)" by (simp add: unsigned_take_bit_eq)
  also have "\<dots> < 2 ^ 6" by (rule take_bit_nat_less_exp)
  finally show ?thesis by simp
qed

lemma sextet1: "unat (drop_bit 2 (a :: 8 word)) < 64"
  by (rule sextet_bound, rule byte_eqI, elim insertE emptyE)
     (auto simp: bit_simps dest: bit_imp_le_length)

lemma sextet2: "unat (push_bit 4 (a AND 3) OR drop_bit 4 (b :: 8 word)) < 64"
  unfolding masks
  by (rule sextet_bound, rule byte_eqI, elim insertE emptyE)
     (auto simp: bit_simps dest: bit_imp_le_length)

lemma sextet3: "unat (push_bit 2 (b AND 15) OR drop_bit 6 (c :: 8 word)) < 64"
  unfolding masks
  by (rule sextet_bound, rule byte_eqI, elim insertE emptyE)
     (auto simp: bit_simps dest: bit_imp_le_length)

lemma sextet4: "unat ((c :: 8 word) AND 63) < 64"
  unfolding masks
  by (rule sextet_bound, rule byte_eqI, elim insertE emptyE)
     (auto simp: bit_simps dest: bit_imp_le_length)

lemma length_b64_alphabet: "length b64_alphabet = 64"
  by (simp add: b64_alphabet_def)

lemma distinct_b64_alphabet: "distinct b64_alphabet"
  by (simp add: b64_alphabet_def)

lemma b64_char_mem: "unat i < 64 \<Longrightarrow> b64_char i \<in> set b64_alphabet"
  by (simp add: b64_char_def length_b64_alphabet)

lemma b64_char_inj: "unat i < 64 \<Longrightarrow> unat j < 64 \<Longrightarrow> b64_char i = b64_char j \<Longrightarrow> i = j"
  using nth_eq_iff_index_eq[OF distinct_b64_alphabet, of "unat i" "unat j"]
  by (simp add: b64_char_def length_b64_alphabet word_unat_eq_iff)

lemma alphabet_plain: "c \<in> set b64_alphabet \<Longrightarrow> c \<noteq> CHR ''='' \<and> c \<noteq> CHR ''-'' \<and> c \<noteq> CHR ''_''"
  by (auto simp: b64_alphabet_def)

lemma url_char_safe: "c \<in> set b64_alphabet \<Longrightarrow> url_safe (url_char c)"
  by (auto simp: b64_alphabet_def url_safe_def url_char_def)

lemma url_char_inj:
  "c \<in> set b64_alphabet \<Longrightarrow> d \<in> set b64_alphabet \<Longrightarrow> url_char c = url_char d \<Longrightarrow> c = d"
  using alphabet_plain[of c] alphabet_plain[of d]
  by (auto simp: url_char_def split: if_splits)


lemma replaceAll_absent: "c \<notin> set s \<Longrightarrow> replaceAll c r s = s"
  by (induction s) (auto simp: replaceAll_def)

lemma replaceAll_char: "replaceAll c [d] s = map (\<lambda>x. if x = c then d else x) s"
  by (induction s) (auto simp: replaceAll_def)

lemma dvd3_Suc3: "3 dvd Suc (Suc (Suc n)) \<longleftrightarrow> 3 dvd n"
  by presburger

lemma not_dvd3: "\<not> 3 dvd Suc 0" "\<not> 3 dvd Suc (Suc 0)"
  by presburger+

lemma btoa_alphabet: "3 dvd length a \<Longrightarrow> set (btoa a) \<subseteq> set b64_alphabet"
proof (induction a rule: btoa.induct)
  case (4 a b c rest)
  from "4.prems" have "3 dvd length rest" by (simp add: dvd3_Suc3)
  with "4.IH" have "set (btoa rest) \<subseteq> set b64_alphabet" by simp
  with b64_char_mem[OF sextet1, of a] b64_char_mem[OF sextet2, of a b] b64_char_mem[OF sextet3, of b c]
    b64_char_mem[OF sextet4, of c]
  show ?case by simp
qed (simp_all add: not_dvd3)

lemma length_btoa: "3 dvd length a \<Longrightarrow> length (btoa a) = 4 * (length a div 3)"
proof (induction a rule: btoa.induct)
  case (4 a b c rest)
  from "4.prems" have d: "3 dvd length rest" by (simp add: dvd3_Suc3)
  have "Suc (Suc (Suc (length rest))) div 3 = Suc (length rest div 3)" by presburger
  with "4.IH" d show ?case by simp
qed (simp_all add: not_dvd3)

lemma token_of_map: "3 dvd length a \<Longrightarrow> token_of a = map url_char (btoa a)"
proof -
  assume d: "3 dvd length a"
  have "CHR ''='' \<notin> set (map url_char (btoa a))"
    using btoa_alphabet[OF d] alphabet_plain by (auto simp: url_char_def)
  moreover have "replaceAll CHR ''/'' ''_'' (replaceAll CHR ''+'' ''-'' (btoa a)) = map url_char (btoa a)"
    by (auto simp: replaceAll_char url_char_def)
  ultimately show ?thesis by (simp add: token_of_def replaceAll_absent)
qed

lemma btoa_inj:
  "3 dvd length a \<Longrightarrow> 3 dvd length a' \<Longrightarrow> map url_char (btoa a) = map url_char (btoa a') \<Longrightarrow> a = a'"
proof (induction a arbitrary: a' rule: btoa.induct)
  case 1
  then show ?case by (cases a' rule: btoa.cases) simp_all
next
  case (2 a)
  then show ?case by (simp add: not_dvd3)
next
  case (3 a b)
  then show ?case by (simp add: not_dvd3)
next
  case (4 a b c rest)
  from "4.prems"(1) have d: "3 dvd length rest" by (simp add: dvd3_Suc3)
  show ?case
  proof (cases a' rule: btoa.cases)
    case 1
    with "4.prems" show ?thesis by simp
  next
    case (2 x)
    with "4.prems" show ?thesis by (simp add: not_dvd3)
  next
    case (3 x y)
    with "4.prems" show ?thesis by (simp add: not_dvd3)
  next
    case (4 x y z rest')
    from "4.prems"(2) 4 have d': "3 dvd length rest'" by (simp add: dvd3_Suc3)
    from "4.prems"(3) 4 have
      e1: "url_char (b64_char (drop_bit 2 a)) = url_char (b64_char (drop_bit 2 x))"
      and e2: "url_char (b64_char (push_bit 4 (a AND 3) OR drop_bit 4 b)) =
               url_char (b64_char (push_bit 4 (x AND 3) OR drop_bit 4 y))"
      and e3: "url_char (b64_char (push_bit 2 (b AND 15) OR drop_bit 6 c)) =
               url_char (b64_char (push_bit 2 (y AND 15) OR drop_bit 6 z))"
      and e4: "url_char (b64_char (c AND 63)) = url_char (b64_char (z AND 63))"
      and er: "map url_char (btoa rest) = map url_char (btoa rest')"
      by simp_all
    have q1: "drop_bit 2 a = drop_bit 2 x"
      by (rule b64_char_inj[OF sextet1 sextet1 url_char_inj[OF b64_char_mem[OF sextet1] b64_char_mem[OF sextet1] e1]])
    have q2: "push_bit 4 (a AND 3) OR drop_bit 4 b = push_bit 4 (x AND 3) OR drop_bit 4 y"
      by (rule b64_char_inj[OF sextet2 sextet2 url_char_inj[OF b64_char_mem[OF sextet2] b64_char_mem[OF sextet2] e2]])
    have q3: "push_bit 2 (b AND 15) OR drop_bit 6 c = push_bit 2 (y AND 15) OR drop_bit 6 z"
      by (rule b64_char_inj[OF sextet3 sextet3 url_char_inj[OF b64_char_mem[OF sextet3] b64_char_mem[OF sextet3] e3]])
    have q4: "c AND 63 = z AND 63"
      by (rule b64_char_inj[OF sextet4 sextet4 url_char_inj[OF b64_char_mem[OF sextet4] b64_char_mem[OF sextet4] e4]])
    have "a = x" by (metis first_byte q1 q2)
    moreover have "b = y" by (metis second_byte q2 q3)
    moreover have "c = z" by (metis third_byte q3 q4)
    moreover have "rest = rest'" by (rule "4.IH"[OF d d' er])
    ultimately show ?thesis using 4 by simp
  qed
qed

lemma token_of_inj:
  "length a = 18 \<Longrightarrow> length a' = 18 \<Longrightarrow> token_of a = token_of a' \<Longrightarrow> a = a'"
  by (rule btoa_inj) (simp_all add: token_of_map[symmetric])

lemma token_of_shape:
  assumes "length a = 18"
  shows "length (token_of a) = 24" and "\<forall>c \<in> set (token_of a). url_safe c"
proof -
  have d: "3 dvd length a" using assms by simp
  show "length (token_of a) = 24"
    by (simp add: token_of_map[OF d] length_btoa[OF d] assms)
  show "\<forall>c \<in> set (token_of a). url_safe c"
    using btoa_alphabet[OF d] by (auto simp: token_of_map[OF d] url_char_safe)
qed

lemma card_seeds: "card {a :: 8 word list. length a = 18} = 2 ^ 144"
proof -
  have "card {a :: 8 word list. set a \<subseteq> UNIV \<and> length a = 18} = card (UNIV :: 8 word set) ^ 18"
    by (rule card_lists_length_eq) simp
  then show ?thesis by (simp add: card_word)
qed

lemma card_tokens: "card (token_of ` {a. length a = 18}) = 2 ^ 144"
proof -
  have "inj_on token_of {a. length a = 18}"
    by (auto intro!: inj_onI token_of_inj)
  then show ?thesis by (simp add: card_image card_seeds)
qed


lemma length_getRandomValues: "length (getRandomValues rng n) = n"
  by (simp add: getRandomValues_def)

lemma makeToken_eq: "makeToken rng n = token_of (getRandomValues rng n)"
  by (simp add: makeToken_def token_of_def)

lemma getRandomValues_onto: "length a = n \<Longrightarrow> \<exists>rng. getRandomValues rng n = a"
  using map_nth[of a] by (auto simp: getRandomValues_def intro!: exI[of _ "\<lambda>i. a ! i"])

lemma getRandomValues_inj:
  "getRandomValues rng n = getRandomValues rng' n \<Longrightarrow> i < n \<Longrightarrow> rng i = rng' i"
  by (simp add: getRandomValues_def)

lemma card_issued_tokens: "card (range (\<lambda>rng. makeToken rng 18)) = 2 ^ 144"
proof -
  have "range (\<lambda>rng. makeToken rng 18) = token_of ` {a. length a = 18}"
  proof (intro set_eqI iffI)
    fix x assume "x \<in> range (\<lambda>rng. makeToken rng 18)"
    then show "x \<in> token_of ` {a. length a = 18}"
      by (auto simp: makeToken_eq length_getRandomValues)
  next
    fix x assume "x \<in> token_of ` {a. length a = 18}"
    then obtain a where a: "length a = 18" "x = token_of a" by auto
    from getRandomValues_onto[OF a(1)] obtain rng where "getRandomValues rng 18 = a" ..
    with a(2) show "x \<in> range (\<lambda>rng. makeToken rng 18)"
      by (auto simp: makeToken_eq intro!: image_eqI[of _ _ rng])
  qed
  then show ?thesis by (simp add: card_tokens)
qed

lemma demo_token: "makeToken demo_rng 18 = ''AAECAwQFBgcICQoLDA0OD_v_''"
  by code_simp

lemma invite_eq:
  "invite rng st =
     ((makeToken rng 18, clock st (Suc (reads st)) + 900000),
      st\<lparr>reads := Suc (Suc (reads st)),
         stored_invites := Some ((case stored_invites st of None \<Rightarrow> Map.empty | Some m \<Rightarrow> m)
            (makeToken rng 18 \<mapsto> \<lparr>createdAt = clock st (reads st), ttlMs = 900000\<rparr>)),
         effects := effects st @
           [Put_invites ((case stored_invites st of None \<Rightarrow> Map.empty | Some m \<Rightarrow> m)
            (makeToken rng 18 \<mapsto> \<lparr>createdAt = clock st (reads st), ttlMs = 900000\<rparr>))]\<rparr>)"
  by (simp add: invite_def Date_now_def storage_put_invites_def INVITE_TTL_MS_def Let_def)

text \<open>
  What the \<open>/invite\<close> branch does. The token is 24 characters, all of them letters,
  digits, \<open>-\<close> or \<open>_\<close>; it determines the 18 bytes drawn, so there are \<open>2 ^ 144\<close> tokens,
  one for each value of the 144 random bits. \<open>{createdAt: now, ttlMs: 900000}\<close> (15
  minutes) is added under the token to the stored invite set (an empty one if none is
  stored), the set is written with one \<open>storage.put\<close>, and the answer is the token and
  \<open>expiresAt\<close>, which is 900000 more than a second reading of the clock, taken after the
  write.
\<close>

lemma invite_issues_token:
  "fst (invite rng st) = (makeToken rng 18, clock st (Suc (reads st)) + 900000) \<and>
   stored_invites (snd (invite rng st)) =
     Some ((case stored_invites st of None \<Rightarrow> Map.empty | Some m \<Rightarrow> m)
            (makeToken rng 18 \<mapsto> \<lparr>createdAt = clock st (reads st), ttlMs = 900000\<rparr>)) \<and>
   effects (snd (invite rng st)) = effects st @
     [Put_invites ((case stored_invites st of None \<Rightarrow> Map.empty | Some m \<Rightarrow> m)
            (makeToken rng 18 \<mapsto> \<lparr>createdAt = clock st (reads st), ttlMs = 900000\<rparr>))] \<and>
   stored_room (snd (invite rng st)) = stored_room st \<and>
   INVITE_TTL_MS = 15 * 60 * 1000 \<and>
   length (makeToken rng 18) = 24 \<and>
   (\<forall>c \<in> set (makeToken rng 18). url_safe c) \<and>
   (\<forall>rng'. makeToken rng' 18 = makeToken rng 18 \<longrightarrow> (\<forall>i < 18. rng' i = rng i)) \<and>
   card (range (\<lambda>rng. makeToken rng 18)) = 2 ^ 144"
proof -
  have l: "length (getRandomValues rng 18) = 18" by (rule length_getRandomValues)
  have inj: "\<forall>rng'. makeToken rng' 18 = makeToken rng 18 \<longrightarrow> (\<forall>i < 18. rng' i = rng i)"
  proof (intro allI impI)
    fix rng' i
    assume e: "makeToken rng' 18 = makeToken rng 18" and i: "i < (18 :: nat)"
    have "getRandomValues rng' 18 = getRandomValues rng 18"
      using e by (intro token_of_inj) (simp_all add: makeToken_eq length_getRandomValues)
    from getRandomValues_inj[OF this i] show "rng' i = rng i" .
  qed
  have tok: "length (makeToken rng 18) = 24" "\<forall>c \<in> set (makeToken rng 18). url_safe c"
    using token_of_shape[OF l] by (simp_all only: makeToken_eq)
  have 1: "fst (invite rng st) = (makeToken rng 18, clock st (Suc (reads st)) + 900000)"
    by (simp add: invite_eq)
  have 2: "stored_invites (snd (invite rng st)) =
     Some ((case stored_invites st of None \<Rightarrow> Map.empty | Some m \<Rightarrow> m)
            (makeToken rng 18 \<mapsto> \<lparr>createdAt = clock st (reads st), ttlMs = 900000\<rparr>))"
    by (simp add: invite_eq)
  have 3: "effects (snd (invite rng st)) = effects st @
     [Put_invites ((case stored_invites st of None \<Rightarrow> Map.empty | Some m \<Rightarrow> m)
            (makeToken rng 18 \<mapsto> \<lparr>createdAt = clock st (reads st), ttlMs = 900000\<rparr>))]"
    by (simp add: invite_eq)
  have 4: "stored_room (snd (invite rng st)) = stored_room st"
    by (simp add: invite_eq)
  have 5: "INVITE_TTL_MS = 15 * 60 * 1000"
    by (simp add: INVITE_TTL_MS_def)
  show ?thesis
    by (intro conjI) (fact 1 2 3 4 5 tok inj card_issued_tokens)+
qed

section \<open>The four outcomes of a connection attempt\<close>

lemma trim_Nil: "trim [] = []"
  by (simp add: trim_def)

lemma clampStr_param: "clampStr (param p) n = Inr (clamped p n)"
  by (cases p) (simp_all add: clampStr_def param_def clamped_def trim_Nil)

lemma clampStr_param_or: "\<exists>s. clampStr (param_or p d) n = Inr s \<and> or_str s d = clamped_or p d n"
  by (simp add: clampStr_def param_or_def clamped_or_def)

lemma ws_fetch_missing:
  "clamped tokenP 200 = [] \<Longrightarrow>
   ws_fetch tokenP nameP roleP cid st = (Inr (Response 401 ''Missing token''), st)"
  using clampStr_param_or[of nameP "''Gast''" 40] clampStr_param_or[of roleP "''Gast''" 20]
  by (auto simp: ws_fetch_def clampStr_param Let_def)

lemma ws_fetch_invalid:
  "clamped tokenP 200 \<noteq> [] \<Longrightarrow> invites_get (invites_of st) (clamped tokenP 200) = None \<Longrightarrow>
   ws_fetch tokenP nameP roleP cid st = (Inr (Response 401 ''Invalid invite''), st)"
  using clampStr_param_or[of nameP "''Gast''" 40] clampStr_param_or[of roleP "''Gast''" 20]
  by (auto simp: ws_fetch_def clampStr_param Let_def invites_of_def)

lemma ws_fetch_expired:
  "clamped tokenP 200 \<noteq> [] \<Longrightarrow> invites_get (invites_of st) (clamped tokenP 200) = Some e \<Longrightarrow>
   expired (clock st (reads st)) e \<Longrightarrow>
   ws_fetch tokenP nameP roleP cid st =
     (Inr (Response 401 ''Invite expired''),
      storage_put_invites ((invites_of st)(clamped tokenP 200 := None)) (st\<lparr>reads := Suc (reads st)\<rparr>))"
  using clampStr_param_or[of nameP "''Gast''" 40] clampStr_param_or[of roleP "''Gast''" 20]
  by (auto simp: ws_fetch_def clampStr_param Let_def invites_of_def Date_now_def)

lemma ws_fetch_accept:
  assumes "clamped tokenP 200 \<noteq> []"
    and "invites_get (invites_of st) (clamped tokenP 200) = Some e"
    and "\<not> expired (clock st (reads st)) e"
  shows "fst (ws_fetch tokenP nameP roleP cid st) = Inr (Upgrade cid)"
    and "stored_invites (snd (ws_fetch tokenP nameP roleP cid st)) = stored_invites st"
    and "\<exists>t. stored_room (snd (ws_fetch tokenP nameP roleP cid st)) =
             Some ((fst (getRoom (st\<lparr>reads := Suc (Suc (reads st))\<rparr>)))
                   \<lparr>participants :=
                      participants (fst (getRoom (st\<lparr>reads := Suc (Suc (reads st))\<rparr>))) @
                      [\<lparr>p_id = cid, p_name = clamped_or nameP ''Gast'' 40,
                        p_role = clamped_or roleP ''Gast'' 20,
                        joinedAt = clock st (Suc (reads st))\<rparr>],
                    timeline :=
                      timeline (fst (getRoom (st\<lparr>reads := Suc (Suc (reads st))\<rparr>))) @
                      [\<lparr>te_ts = t, te_kind = join, te_by = cid\<rparr>]\<rparr>)"
    and "map fst (sessions (snd (ws_fetch tokenP nameP roleP cid st))) =
           map fst (AList.update cid undefined (sessions st))"
proof -
  obtain n0 r0 where n: "clampStr (param_or nameP ''Gast'') 40 = Inr n0"
    and n': "or_str n0 ''Gast'' = clamped_or nameP ''Gast'' 40"
    and r: "clampStr (param_or roleP ''Gast'') 20 = Inr r0"
    and r': "or_str r0 ''Gast'' = clamped_or roleP ''Gast'' 20"
    using clampStr_param_or[of nameP "''Gast''" 40] clampStr_param_or[of roleP "''Gast''" 20]
    by auto
  note defs = ws_fetch_def clampStr_param n n' r r' Let_def invites_of_def Date_now_def
        ws_send_def JSON_stringify_def split_beta broadcast_eq publicState_def
        addParticipant_def getRoom_def storage_put_room_def
  show "fst (ws_fetch tokenP nameP roleP cid st) = Inr (Upgrade cid)"
    using assms by (simp add: defs)
  show "stored_invites (snd (ws_fetch tokenP nameP roleP cid st)) = stored_invites st"
    using assms by (simp add: defs split: option.splits)
  show "\<exists>t. stored_room (snd (ws_fetch tokenP nameP roleP cid st)) =
             Some ((fst (getRoom (st\<lparr>reads := Suc (Suc (reads st))\<rparr>)))
                   \<lparr>participants :=
                      participants (fst (getRoom (st\<lparr>reads := Suc (Suc (reads st))\<rparr>))) @
                      [\<lparr>p_id = cid, p_name = clamped_or nameP ''Gast'' 40,
                        p_role = clamped_or roleP ''Gast'' 20,
                        joinedAt = clock st (Suc (reads st))\<rparr>],
                    timeline :=
                      timeline (fst (getRoom (st\<lparr>reads := Suc (Suc (reads st))\<rparr>))) @
                      [\<lparr>te_ts = t, te_kind = join, te_by = cid\<rparr>]\<rparr>)"
    using assms by (auto simp: defs split: option.splits)
  show "map fst (sessions (snd (ws_fetch tokenP nameP roleP cid st))) =
           map fst (AList.update cid undefined (sessions st))"
    using assms by (simp add: defs deliver_def update_keys o_def dom_update split: option.splits)
qed


lemma invites_get_ordinary:
  "token \<notin> set object_prototype_keys \<Longrightarrow> invites_get m token = map_option Own (m token)"
  by (simp add: invites_get_def split: option.splits)

text \<open>
  Claim C4, as amended. A connection attempt whose token (trimmed, cut to 200) is empty,
  or is neither a key of the invite set nor the name of a member of \<open>Object.prototype\<close>,
  or is the key of an invite older than its \<open>ttlMs\<close>, is answered with status 401 and no
  upgrade: no session is registered, the room is not touched and nothing is sent. The body
  of the answer is \<open>Missing token\<close>, \<open>Invalid invite\<close> or \<open>Invite expired\<close>, one for
  each case.
\<close>

theorem unauthorized_before_upgrade:
  assumes "clamped tokenP 200 = [] \<or>
           (invites_of st (clamped tokenP 200) = None \<and>
            clamped tokenP 200 \<notin> set object_prototype_keys) \<or>
           (\<exists>i. invites_of st (clamped tokenP 200) = Some i \<and>
                clock st (reads st) - createdAt i > ttlMs i)"
  shows "clampStr (param tokenP) 200 = Inr (clamped tokenP 200) \<and>
         fst (ws_fetch tokenP nameP roleP cid st) =
           Inr (Response 401
                 (if clamped tokenP 200 = [] then ''Missing token''
                  else if invites_of st (clamped tokenP 200) = None then ''Invalid invite''
                  else ''Invite expired'')) \<and>
         sessions (snd (ws_fetch tokenP nameP roleP cid st)) = sessions st \<and>
         stored_room (snd (ws_fetch tokenP nameP roleP cid st)) = stored_room st \<and>
         filter is_delivery (effects (snd (ws_fetch tokenP nameP roleP cid st))) =
           filter is_delivery (effects st)"
proof -
  consider (missing) "clamped tokenP 200 = []"
    | (invalid) "clamped tokenP 200 \<noteq> []" "invites_of st (clamped tokenP 200) = None"
        "clamped tokenP 200 \<notin> set object_prototype_keys"
    | (expired) i where "clamped tokenP 200 \<noteq> []" "invites_of st (clamped tokenP 200) = Some i"
        "clock st (reads st) - createdAt i > ttlMs i"
    using assms by (cases "clamped tokenP 200 = []") auto
  then show ?thesis
  proof cases
    case missing
    then show ?thesis by (simp add: ws_fetch_missing clampStr_param)
  next
    case invalid
    from invalid(2,3) have "invites_get (invites_of st) (clamped tokenP 200) = None"
      by (simp add: invites_get_def)
    from ws_fetch_invalid[OF invalid(1) this] invalid show ?thesis
      by (simp add: clampStr_param)
  next
    case expired
    from expired(2) have g: "invites_get (invites_of st) (clamped tokenP 200) = Some (Own i)"
      by (simp add: invites_get_def)
    from expired(3) have e: "expired (clock st (reads st)) (Own i)" by simp
    from ws_fetch_expired[OF expired(1) g e] expired show ?thesis
      by (simp add: clampStr_param storage_put_invites_def)
  qed
qed

lemma new_room_state:
  "stored_invites new_room = Some Map.empty" "reads new_room = 1" "clock new_room = demo_clock"
  "sessions new_room = []"
  "stored_room new_room =
     Some \<lparr>startedAt = 1000,
           focus = \<lparr>f_type = ''question'', content = [], author = [], authorName = [],
                     f_ts = 1000\<rparr>,
           participants = [],
           timeline = [\<lparr>te_ts = 1000, te_kind = room_started, te_by = []\<rparr>]\<rparr>"
  by (simp_all add: new_room_def init_def Date_now_def storage_put_room_def
      storage_put_invites_def RoomDO_def Let_def demo_clock_def)

lemma clamped_samples:
  "clamped (Some '''') 200 = []" "clamped (Some ''   '') 200 = []" "clamped None 200 = []"
  "clamped (Some ''garbage-token'') 200 = ''garbage-token''"
  "clamped (Some ''constructor'') 200 = ''constructor''"
  "clamped (Some ''AAECAwQFBgcICQoLDA0OD_v_'') 200 = ''AAECAwQFBgcICQoLDA0OD_v_''"
  by (simp_all add: clamped_def trim_def is_space_def)

theorem unauthorized_before_upgrade_witness:
  "fst (ws_fetch (Some ''   '') (Some ''Eve'') None ''s-eve'' new_room) =
     Inr (Response 401 ''Missing token'') \<and>
   fst (ws_fetch (Some ''garbage-token'') (Some ''Eve'') None ''s-eve'' new_room) =
     Inr (Response 401 ''Invalid invite'') \<and>
   fst (ws_fetch (Some ''AAECAwQFBgcICQoLDA0OD_v_'') (Some ''Eve'') None ''s-eve'' later_room) =
     Inr (Response 401 ''Invite expired'') \<and>
   sessions (snd (ws_fetch (Some ''AAECAwQFBgcICQoLDA0OD_v_'') (Some ''Eve'') None ''s-eve''
     later_room)) = []"
proof -
  note t = demo_token
  have l: "invites_of later_room ''AAECAwQFBgcICQoLDA0OD_v_'' =
             Some \<lparr>createdAt = 1001, ttlMs = 900000\<rparr>"
    "reads later_room = 3" "clock later_room 3 = 901005" "sessions later_room = []"
    by (simp_all add: later_room_def invited_room_def invite_eq t new_room_state invites_of_def
        demo_clock_def)
  have n: "invites_of new_room = Map.empty"
    by (simp add: invites_of_def new_room_state)
  have h1: "clamped (Some ''   '') 200 = [] \<or>
           (invites_of new_room (clamped (Some ''   '') 200) = None \<and>
            clamped (Some ''   '') 200 \<notin> set object_prototype_keys) \<or>
           (\<exists>i. invites_of new_room (clamped (Some ''   '') 200) = Some i \<and>
                clock new_room (reads new_room) - createdAt i > ttlMs i)"
    by (simp add: clamped_samples)
  have h2: "clamped (Some ''garbage-token'') 200 = [] \<or>
           (invites_of new_room (clamped (Some ''garbage-token'') 200) = None \<and>
            clamped (Some ''garbage-token'') 200 \<notin> set object_prototype_keys) \<or>
           (\<exists>i. invites_of new_room (clamped (Some ''garbage-token'') 200) = Some i \<and>
                clock new_room (reads new_room) - createdAt i > ttlMs i)"
    by (simp add: clamped_samples n object_prototype_keys_def)
  have h3: "clamped (Some ''AAECAwQFBgcICQoLDA0OD_v_'') 200 = [] \<or>
           (invites_of later_room (clamped (Some ''AAECAwQFBgcICQoLDA0OD_v_'') 200) = None \<and>
            clamped (Some ''AAECAwQFBgcICQoLDA0OD_v_'') 200 \<notin> set object_prototype_keys) \<or>
           (\<exists>i. invites_of later_room (clamped (Some ''AAECAwQFBgcICQoLDA0OD_v_'') 200) = Some i \<and>
                clock later_room (reads later_room) - createdAt i > ttlMs i)"
    by (simp add: clamped_samples l)
  from unauthorized_before_upgrade[OF h1, of "Some ''Eve''" None "''s-eve''"]
    unauthorized_before_upgrade[OF h2, of "Some ''Eve''" None "''s-eve''"]
    unauthorized_before_upgrade[OF h3, of "Some ''Eve''" None "''s-eve''"]
  show ?thesis by (simp add: clamped_samples n l)
qed

text \<open>The three rejections are not one and the same answer: the bodies differ.\<close>

theorem rejections_tell_the_cases_apart:
  "fst (ws_fetch (Some '''') None None ''s-eve'' new_room) =
     Inr (Response 401 ''Missing token'') \<and>
   fst (ws_fetch (Some ''garbage-token'') None None ''s-eve'' new_room) =
     Inr (Response 401 ''Invalid invite'') \<and>
   fst (ws_fetch (Some '''') None None ''s-eve'' new_room) \<noteq>
     fst (ws_fetch (Some ''garbage-token'') None None ''s-eve'' new_room)"
proof -
  have n: "invites_get (invites_of new_room) ''garbage-token'' = None"
    by (simp add: invites_of_def new_room_state invites_get_def object_prototype_keys_def)
  show ?thesis
    by (simp add: ws_fetch_missing ws_fetch_invalid clamped_samples n)
qed

section \<open>Validation of a token at connect time\<close>

text \<open>
  What the handler does with a token that is not the name of a member of
  \<open>Object.prototype\<close>: it is admitted exactly when the invite set has it and it is not
  older than its \<open>ttlMs\<close>; an absent one is answered \<open>Invalid invite\<close> and nothing
  changes; an expired one is answered \<open>Invite expired\<close>, deleted from the set, and the set
  is stored; an admitted one stays in the stored set.
\<close>

lemma ordinary_token_validation:
  assumes "clamped tokenP 200 \<noteq> []" and "clamped tokenP 200 \<notin> set object_prototype_keys"
  shows "fst (ws_fetch tokenP nameP roleP cid st) = Inr (Upgrade cid) \<longleftrightarrow>
           (\<exists>i. invites_of st (clamped tokenP 200) = Some i \<and>
                clock st (reads st) - createdAt i \<le> ttlMs i)"
    and "invites_of st (clamped tokenP 200) = None \<Longrightarrow>
           ws_fetch tokenP nameP roleP cid st = (Inr (Response 401 ''Invalid invite''), st)"
    and "invites_of st (clamped tokenP 200) = Some i \<Longrightarrow>
         clock st (reads st) - createdAt i > ttlMs i \<Longrightarrow>
           fst (ws_fetch tokenP nameP roleP cid st) = Inr (Response 401 ''Invite expired'') \<and>
           stored_invites (snd (ws_fetch tokenP nameP roleP cid st)) =
             Some ((invites_of st)(clamped tokenP 200 := None)) \<and>
           effects (snd (ws_fetch tokenP nameP roleP cid st)) =
             effects st @ [Put_invites ((invites_of st)(clamped tokenP 200 := None))]"
    and "invites_of st (clamped tokenP 200) = Some i \<Longrightarrow>
         clock st (reads st) - createdAt i \<le> ttlMs i \<Longrightarrow>
           stored_invites (snd (ws_fetch tokenP nameP roleP cid st)) = stored_invites st"
proof -
  note g = invites_get_ordinary[OF assms(2), of "invites_of st"]
  show none: "ws_fetch tokenP nameP roleP cid st = (Inr (Response 401 ''Invalid invite''), st)"
    if "invites_of st (clamped tokenP 200) = None"
    using ws_fetch_invalid[OF assms(1), of st] g that by simp
  show exp: "fst (ws_fetch tokenP nameP roleP cid st) = Inr (Response 401 ''Invite expired'') \<and>
           stored_invites (snd (ws_fetch tokenP nameP roleP cid st)) =
             Some ((invites_of st)(clamped tokenP 200 := None)) \<and>
           effects (snd (ws_fetch tokenP nameP roleP cid st)) =
             effects st @ [Put_invites ((invites_of st)(clamped tokenP 200 := None))]"
    if "invites_of st (clamped tokenP 200) = Some i" "clock st (reads st) - createdAt i > ttlMs i"
    for i
    using ws_fetch_expired[OF assms(1), of st "Own i"] g that
    by (simp add: storage_put_invites_def)
  show ok: "stored_invites (snd (ws_fetch tokenP nameP roleP cid st)) = stored_invites st"
    if "invites_of st (clamped tokenP 200) = Some i" "clock st (reads st) - createdAt i \<le> ttlMs i"
    for i
    using ws_fetch_accept(2)[OF assms(1), of st "Own i"] g that by simp
  show "fst (ws_fetch tokenP nameP roleP cid st) = Inr (Upgrade cid) \<longleftrightarrow>
           (\<exists>i. invites_of st (clamped tokenP 200) = Some i \<and>
                clock st (reads st) - createdAt i \<le> ttlMs i)"
  proof (cases "invites_of st (clamped tokenP 200)")
    case None
    with none show ?thesis by simp
  next
    case (Some i)
    show ?thesis
    proof (cases "clock st (reads st) - createdAt i > ttlMs i")
      case True
      with exp[OF Some] Some show ?thesis by simp
    next
      case False
      with ws_fetch_accept(1)[OF assms(1), of st "Own i"] g Some show ?thesis by simp
    qed
  qed
qed

text \<open>
  Claim C3 fails on the names of the members of \<open>Object.prototype\<close>: \<open>invites[token]\<close>
  finds the inherited member, which is truthy, and \<open>NaN > undefined\<close> is false. On a
  room whose invite set is empty, the token \<open>constructor\<close> is admitted: the answer is the
  upgrade, and the session is a participant.
\<close>

theorem prototype_member_name_is_admitted:
  "invites_of new_room = Map.empty \<and>
   fst (ws_fetch (Some ''constructor'') None None ''s-eve'' new_room) = Inr (Upgrade ''s-eve'') \<and>
   (\<exists>r. stored_room (snd (ws_fetch (Some ''constructor'') None None ''s-eve'' new_room)) = Some r \<and>
        map p_id (participants r) = [''s-eve''])"
proof -
  have n: "invites_of new_room = Map.empty"
    by (simp add: invites_of_def new_room_state)
  have c: "clamped (Some ''constructor'') 200 \<noteq> []"
    by (simp add: clamped_samples)
  have g: "invites_get (invites_of new_room) (clamped (Some ''constructor'') 200) = Some Inherited"
    by (simp add: n clamped_samples invites_get_def object_prototype_keys_def)
  have e: "\<not> expired (clock new_room (reads new_room)) Inherited"
    by simp
  have r: "fst (getRoom (new_room\<lparr>reads := Suc (Suc (reads new_room))\<rparr>)) =
      \<lparr>startedAt = 1000,
           focus = \<lparr>f_type = ''question'', content = [], author = [], authorName = [],
                     f_ts = 1000\<rparr>,
           participants = [],
           timeline = [\<lparr>te_ts = 1000, te_kind = room_started, te_by = []\<rparr>]\<rparr>"
    by (simp add: getRoom_def new_room_state)
  from ws_fetch_accept(1)[OF c g e, of None None "''s-eve''"]
    ws_fetch_accept(3)[OF c g e, of None None "''s-eve''"] n
  show ?thesis by (auto simp: r)
qed

lemma prototype_member_names_are_admitted:
  assumes "clamped tokenP 200 \<in> set object_prototype_keys"
    and "invites_of st (clamped tokenP 200) = None"
  shows "fst (ws_fetch tokenP nameP roleP cid st) = Inr (Upgrade cid)"
proof -
  from assms(1) have c: "clamped tokenP 200 \<noteq> []"
    by (auto simp: object_prototype_keys_def)
  from assms have g: "invites_get (invites_of st) (clamped tokenP 200) = Some Inherited"
    by (simp add: invites_get_def)
  show ?thesis by (rule ws_fetch_accept(1)[OF c g]) simp
qed

section \<open>The expiry instant that \<open>/invite\<close> reports\<close>

text \<open>
  Claim C8 fails on the expiry instant when the clock moves while the invite set is
  written: \<open>createdAt\<close> is the reading of line 106, before \<open>await storage.put\<close>, and
  \<open>expiresAt\<close> is computed from a second reading, on line 110, after it. On a new room
  whose clock reads 1001 and then 1002, \<open>/invite\<close> stores
  \<open>{createdAt: 1001, ttlMs: 900000}\<close> and answers \<open>expiresAt: 901002\<close>, which is not
  \<open>createdAt + ttlMs\<close>: the connection handler admits the token at 901001 and answers
  \<open>Invite expired\<close> at 901002, the instant the answer gave.
\<close>

theorem reported_expiry_is_not_the_expiry_instant:
  "fst (invite demo_rng new_room) = (''AAECAwQFBgcICQoLDA0OD_v_'', 901002) \<and>
   invites_of invited_room ''AAECAwQFBgcICQoLDA0OD_v_'' =
     Some \<lparr>createdAt = 1001, ttlMs = 900000\<rparr> \<and>
   clock in_time_room (reads in_time_room) = 901001 \<and>
   fst (ws_fetch (Some ''AAECAwQFBgcICQoLDA0OD_v_'') None None ''s-eve'' in_time_room) =
     Inr (Upgrade ''s-eve'') \<and>
   clock expiry_room (reads expiry_room) = 901002 \<and>
   fst (ws_fetch (Some ''AAECAwQFBgcICQoLDA0OD_v_'') None None ''s-eve'' expiry_room) =
     Inr (Response 401 ''Invite expired'')"
proof -
  have a: "fst (invite demo_rng new_room) = (''AAECAwQFBgcICQoLDA0OD_v_'', 901002)"
    by code_simp
  have b: "invites_of invited_room ''AAECAwQFBgcICQoLDA0OD_v_'' =
      Some \<lparr>createdAt = 1001, ttlMs = 900000\<rparr>"
    by code_simp
  have c: "clock in_time_room (reads in_time_room) = 901001"
    "clock expiry_room (reads expiry_room) = 901002"
    by (simp_all add: in_time_room_def expiry_room_def)
  have d: "fst (ws_fetch (Some ''AAECAwQFBgcICQoLDA0OD_v_'') None None ''s-eve'' in_time_room) =
      Inr (Upgrade ''s-eve'')"
    by code_simp
  have e: "fst (ws_fetch (Some ''AAECAwQFBgcICQoLDA0OD_v_'') None None ''s-eve'' expiry_room) =
      Inr (Response 401 ''Invite expired'')"
    by code_simp
  from a b c d e show ?thesis by (intro conjI)
qed

section \<open>The message listener\<close>

lemma getFocus_eq: "getFocus st = (focus (fst (getRoom st)), snd (getRoom st))"
  by (simp add: getFocus_def split_beta)

lemma publicState_eq:
  "publicState st =
     (\<lparr>ps_startedAt = startedAt (fst (getRoom st)), ps_participants = participants (fst (getRoom st)),
       ps_focus = focus (fst (getRoom st))\<rparr>, snd (getRoom st))"
  by (simp add: publicState_def split_beta)

lemma on_message_set_focus:
  assumes "get_prop msg ''kind'' = Some (JStr ''set_focus'')"
  shows "on_message cid (Some msg) st =
     (case clampStr (content_of_payload (payload_of msg)) 4000 of
        Inl e \<Rightarrow> (Some e, st)
      | Inr c \<Rightarrow>
          (None, broadcast (Focus (fst (getFocus (setFocus cid (type_of_payload (payload_of msg)) c st))))
                   (snd (getFocus (setFocus cid (type_of_payload (payload_of msg)) c st)))))"
proof -
  from assms obtain ps where m: "msg = JObj ps" by (cases msg) simp_all
  show ?thesis
    using assms
    by (simp add: on_message_def m payload_of_def type_of_payload_def content_of_payload_def
        Let_def split_beta split: sum.splits)
qed

lemma on_message_other:
  assumes "get_prop msg ''kind'' \<noteq> Some (JStr ''set_focus'')"
  shows "on_message cid (Some msg) st = (None, st) \<or>
         on_message cid (Some msg) st = (None, close_socket cid st)"
  using assms by (simp add: on_message_def)

lemma clampStr_length: "clampStr v n = Inr c \<Longrightarrow> length c \<le> n"
  by (auto simp: clampStr_def split: sum.splits)

text \<open>
  What a \<open>set_focus\<close> message does when its content can be made a string: the type is
  \<open>text\<close> if the message says so and \<open>question\<close> in every other case, the content is at
  most 4000 long, the focus is replaced with the sender as author and the name of its
  session, one \<open>set_focus\<close> event is appended, the room is stored, and the new focus,
  alone, is broadcast.
\<close>

lemma set_focus_message_is_recorded_and_broadcast:
  assumes "get_prop msg ''kind'' = Some (JStr ''set_focus'')"
    and "clampStr (content_of_payload (payload_of msg)) 4000 = Inr c"
    and "map_of (sessions st) cid = Some s"
    and "stored_room st = Some r"
  shows "length c \<le> 4000"
    and "type_of_payload (payload_of msg) =
           (if get_prop (payload_of msg) ''type'' = Some (JStr ''text'') then ''text''
            else ''question'')"
    and "on_message cid (Some msg) st =
          (None,
           broadcast
             (Focus \<lparr>f_type = type_of_payload (payload_of msg), content = c, author = cid,
                     authorName = s_name s, f_ts = clock st (reads st)\<rparr>)
             (storage_put_room
               (r\<lparr>focus := \<lparr>f_type = type_of_payload (payload_of msg), content = c, author = cid,
                             authorName = s_name s, f_ts = clock st (reads st)\<rparr>,
                  timeline := timeline r @
                    [\<lparr>te_ts = clock st (Suc (reads st)), te_kind = set_focus, te_by = cid\<rparr>]\<rparr>)
               (st\<lparr>reads := Suc (Suc (reads st))\<rparr>)))"
proof -
  show "length c \<le> 4000" by (rule clampStr_length[OF assms(2)])
  show "type_of_payload (payload_of msg) =
           (if get_prop (payload_of msg) ''type'' = Some (JStr ''text'') then ''text''
            else ''question'')"
    by (simp add: type_of_payload_def)
  show "on_message cid (Some msg) st =
          (None,
           broadcast
             (Focus \<lparr>f_type = type_of_payload (payload_of msg), content = c, author = cid,
                     authorName = s_name s, f_ts = clock st (reads st)\<rparr>)
             (storage_put_room
               (r\<lparr>focus := \<lparr>f_type = type_of_payload (payload_of msg), content = c, author = cid,
                             authorName = s_name s, f_ts = clock st (reads st)\<rparr>,
                  timeline := timeline r @
                    [\<lparr>te_ts = clock st (Suc (reads st)), te_kind = set_focus, te_by = cid\<rparr>]\<rparr>)
               (st\<lparr>reads := Suc (Suc (reads st))\<rparr>)))"
    by (simp add: on_message_set_focus[OF assms(1)] assms(2) setFocus_Some[OF assms(4)] assms(3)
        getFocus_eq getRoom_def storage_put_room_def or_str_def)
qed

text \<open>
  Claim C5 fails on a \<open>set_focus\<close> message whose content is an object with an own
  property \<open>toString\<close>: \<open>String\<close> throws in \<open>clampStr\<close>, the listener ends there, and
  neither the focus nor the timeline changes and nothing is broadcast.
\<close>

theorem set_focus_with_unconvertible_content_throws:
  "get_prop bad_set_focus ''kind'' = Some (JStr ''set_focus'') \<and>
   on_message cid (Some bad_set_focus) st = (Some TypeError, st)"
proof -
  have k: "get_prop bad_set_focus ''kind'' = Some (JStr ''set_focus'')"
    by (simp add: bad_set_focus_def)
  have c: "clampStr (content_of_payload (payload_of bad_set_focus)) 4000 = Inl TypeError"
    by (simp add: bad_set_focus_def payload_of_def content_of_payload_def clampStr_def)
  show ?thesis
    by (simp add: on_message_set_focus[OF k] c k)
qed

theorem set_focus_with_unconvertible_content_throws_witness:
  "map_of (sessions demo_hub) ''s-ada'' \<noteq> None \<and>
   on_message ''s-ada'' (Some bad_set_focus) demo_hub = (Some TypeError, demo_hub)"
proof -
  have s: "map_of (sessions demo_hub) ''s-ada'' \<noteq> None"
    by (simp add: demo_hub_def)
  from set_focus_with_unconvertible_content_throws[of "''s-ada''" demo_hub] s
  show ?thesis by simp
qed


section \<open>The focus of a room over its life\<close>

lemma close_socket_room [simp]: "stored_room (close_socket cid st) = stored_room st"
  by (simp add: close_socket_def)

lemma broadcast_room [simp]: "stored_room (broadcast m st) = stored_room st"
  by (simp add: broadcast_eq)

lemma getRoom_keeps:
  "stored_room st = Some r \<Longrightarrow> stored_room (snd (getRoom st)) = Some r"
  by (simp add: getRoom_Some)

lemma default_focus_wf:
  "wf_focus \<lparr>f_type = ''question'', content = '''', author = '''', authorName = '''', f_ts = t\<rparr>"
  by (simp add: wf_focus_def)

lemma room_ok_getRoom: "room_ok st \<Longrightarrow> wf_focus (focus (fst (getRoom st)))"
  by (cases "stored_room st") (simp_all add: room_ok_def getRoom_Some getRoom_None default_focus_wf)

lemma mutate_any:
  "\<exists>r'. stored_room (mutate st m) = Some r' \<and>
        startedAt r' = startedAt (fst (getRoom st)) \<and>
        (case m of
           SetFocus b ty c \<Rightarrow> f_type (focus r') = ty \<and> content (focus r') = c
         | _ \<Rightarrow> focus r' = focus (fst (getRoom st)))"
proof -
  have s: "stored_room (snd (getRoom st)) = Some (fst (getRoom st))" by (rule getRoom_stored)
  have "\<exists>r'. stored_room (mutate (snd (getRoom st)) m) = Some r' \<and>
        startedAt r' = startedAt (fst (getRoom st)) \<and>
        (case m of
           SetFocus b ty c \<Rightarrow> f_type (focus r') = ty \<and> content (focus r') = c
         | _ \<Rightarrow> focus r' = focus (fst (getRoom st)))"
    by (cases m)
       (simp_all add: addParticipant_Some[OF s] removeParticipant_Some[OF s] setFocus_Some[OF s]
          storage_put_room_def)
  then show ?thesis by (simp add: mutate_lazy)
qed

lemma on_close_room:
  "\<exists>r'. stored_room (on_close cid st) = Some r' \<and>
        startedAt r' = startedAt (fst (getRoom st)) \<and> focus r' = focus (fst (getRoom st))"
proof -
  let ?st1 = "st\<lparr>sessions := AList.delete cid (sessions st)\<rparr>"
  have g: "fst (getRoom ?st1) = fst (getRoom st)"
    by (simp add: getRoom_def Date_now_def split_beta Let_def split: option.splits)
  from mutate_any[of ?st1 "RemoveParticipant cid"] obtain r' where
    r': "stored_room (removeParticipant cid ?st1) = Some r'"
    and f: "startedAt r' = startedAt (fst (getRoom st))" "focus r' = focus (fst (getRoom st))"
    by (auto simp: g)
  have "stored_room (on_close cid st) = Some r'"
    by (simp add: on_close_def Let_def publicState_eq getRoom_Some[OF r'] r')
  with f show ?thesis by simp
qed

lemma ws_fetch_room:
  "stored_room (snd (ws_fetch tokenP nameP roleP cid st)) = stored_room st \<or>
   (\<exists>r'. stored_room (snd (ws_fetch tokenP nameP roleP cid st)) = Some r' \<and>
      startedAt r' = startedAt (fst (getRoom (st\<lparr>reads := Suc (Suc (reads st))\<rparr>))) \<and>
      focus r' = focus (fst (getRoom (st\<lparr>reads := Suc (Suc (reads st))\<rparr>))))"
proof (cases "clamped tokenP 200 = []")
  case True
  then show ?thesis by (simp add: ws_fetch_missing)
next
  case False
  show ?thesis
  proof (cases "invites_get (invites_of st) (clamped tokenP 200)")
    case None
    with False show ?thesis by (simp add: ws_fetch_invalid)
  next
    case (Some e)
    show ?thesis
    proof (cases "expired (clock st (reads st)) e")
      case True
      with False Some show ?thesis by (simp add: ws_fetch_expired storage_put_invites_def)
    next
      case no: False
      from ws_fetch_accept(3)[OF False Some no, of nameP roleP cid] show ?thesis by auto
    qed
  qed
qed

lemma on_message_room:
  "stored_room (snd (on_message cid parsed st)) = stored_room st \<or>
   (\<exists>msg r'. parsed = Some msg \<and> get_prop msg ''kind'' = Some (JStr ''set_focus'') \<and>
      stored_room (snd (on_message cid parsed st)) = Some r' \<and>
      startedAt r' = startedAt (fst (getRoom st)) \<and> wf_focus (focus r'))"
proof (cases parsed)
  case None
  then show ?thesis by (simp add: on_message_def)
next
  case (Some msg)
  show ?thesis
  proof (cases "get_prop msg ''kind'' = Some (JStr ''set_focus'')")
    case False
    from on_message_other[OF False, of cid st] Some show ?thesis by auto
  next
    case True
    show ?thesis
    proof (cases "clampStr (content_of_payload (payload_of msg)) 4000")
      case (Inl e)
      with Some True show ?thesis by (simp add: on_message_set_focus)
    next
      case (Inr c)
      from mutate_any[of st "SetFocus cid (type_of_payload (payload_of msg)) c"] obtain r' where
        r': "stored_room (setFocus cid (type_of_payload (payload_of msg)) c st) = Some r'"
        and s: "startedAt r' = startedAt (fst (getRoom st))"
        and t: "f_type (focus r') = type_of_payload (payload_of msg)"
        and c: "content (focus r') = c"
        by auto
      have w: "wf_focus (focus r')"
        using clampStr_length[OF Inr] by (simp add: wf_focus_def t c type_of_payload_def)
      have "stored_room (snd (on_message cid parsed st)) = Some r'"
        by (simp add: Some on_message_set_focus[OF True] Inr getFocus_eq getRoom_Some[OF r'] r')
      with Some True s w show ?thesis by simp
    qed
  qed
qed

lemma step_keeps_focus:
  assumes "stored_room st = Some r" and "\<not> sets_focus e"
  shows "\<exists>r'. stored_room (step st e) = Some r' \<and> startedAt r' = startedAt r \<and> focus r' = focus r"
proof (cases e)
  case (Invite a)
  with assms show ?thesis by (simp add: invite_eq)
next
  case (Connect t n ro cid)
  have "fst (getRoom (st\<lparr>reads := Suc (Suc (reads st))\<rparr>)) = r"
    using assms(1) by (simp add: getRoom_def)
  with ws_fetch_room[of t n ro cid st] assms(1) Connect show ?thesis by auto
next
  case (Message cid parsed)
  with on_message_room[of cid parsed st] assms show ?thesis by auto
next
  case (Close cid)
  with on_close_room[of cid st] assms(1) show ?thesis by (simp add: getRoom_Some)
next
  case (Error cid)
  with assms show ?thesis by (simp add: on_error_def)
qed

lemma run_keeps_focus:
  "stored_room st = Some r \<Longrightarrow> \<forall>e \<in> set evs. \<not> sets_focus e \<Longrightarrow>
   \<exists>r'. stored_room (run evs st) = Some r' \<and> startedAt r' = startedAt r \<and> focus r' = focus r"
proof (induction evs arbitrary: st r)
  case Nil
  then show ?case by (simp add: run_def)
next
  case (Cons e evs)
  from Cons.prems(2) have e: "\<not> sets_focus e" and es: "\<forall>e \<in> set evs. \<not> sets_focus e" by simp_all
  from step_keeps_focus[OF Cons.prems(1) e] obtain r1 where
    r1: "stored_room (step st e) = Some r1" and k: "startedAt r1 = startedAt r" "focus r1 = focus r"
    by blast
  from Cons.IH[OF r1 es] k show ?case by (simp add: run_def)
qed

lemma step_room_ok: "room_ok st \<Longrightarrow> room_ok (step st e)"
proof (cases e)
  case (Invite a)
  assume "room_ok st"
  with Invite show ?thesis by (simp add: invite_eq room_ok_def)
next
  case (Connect t n ro cid)
  assume ok: "room_ok st"
  have "room_ok (st\<lparr>reads := Suc (Suc (reads st))\<rparr>)" using ok by (simp add: room_ok_def)
  from room_ok_getRoom[OF this] ws_fetch_room[of t n ro cid st] ok Connect
  show ?thesis by (auto simp: room_ok_def)
next
  case (Message cid parsed)
  assume ok: "room_ok st"
  with on_message_room[of cid parsed st] Message show ?thesis by (auto simp: room_ok_def)
next
  case (Close cid)
  assume ok: "room_ok st"
  from room_ok_getRoom[OF ok] on_close_room[of cid st] Close show ?thesis
    by (auto simp: room_ok_def)
next
  case (Error cid)
  assume "room_ok st"
  with Error show ?thesis by (simp add: on_error_def room_ok_def)
qed

lemma run_room_ok: "room_ok st \<Longrightarrow> room_ok (run evs st)"
  by (induction evs arbitrary: st) (simp_all add: run_def step_room_ok)


text \<open>
  Claim C9. A room has a focus from its creation on: \<open>/init\<close> and the first \<open>_getRoom\<close>
  both make it \<open>{type: "question", content: "", author: "", authorName: "", ts: startedAt}\<close>.
  As long as no \<open>set_focus\<close> message has been handled, whatever else the room has received
  (invites, connection attempts, other messages, closes, errors), \<open>_getFocus\<close> and
  \<open>_publicState\<close> return this focus. And every event leaves the focus well formed: its
  type is \<open>question\<close> or \<open>text\<close> and its content is at most 4000 long.
\<close>

theorem focus_is_always_present_and_well_formed:
  "(\<exists>r. stored_room (init st0) = Some r \<and>
        focus r = \<lparr>f_type = ''question'', content = '''', author = '''', authorName = '''',
                    f_ts = startedAt r\<rparr>) \<and>
   (stored_room st1 = None \<longrightarrow>
      stored_room (snd (getRoom st1)) = Some (fst (getRoom st1)) \<and>
      focus (fst (getRoom st1)) =
        \<lparr>f_type = ''question'', content = '''', author = '''', authorName = '''',
          f_ts = startedAt (fst (getRoom st1))\<rparr>) \<and>
   (list_all (\<lambda>e. \<not> sets_focus e) evs \<longrightarrow>
      fst (getFocus (run evs (init st0))) =
        \<lparr>f_type = ''question'', content = '''', author = '''', authorName = '''',
          f_ts = clock st0 (reads st0)\<rparr> \<and>
      ps_focus (fst (publicState (run evs (init st0)))) =
        \<lparr>f_type = ''question'', content = '''', author = '''', authorName = '''',
          f_ts = clock st0 (reads st0)\<rparr> \<and>
      ps_startedAt (fst (publicState (run evs (init st0)))) = clock st0 (reads st0)) \<and>
   (list_all (\<lambda>e. \<not> sets_focus e) evs \<and> stored_room st1 = None \<longrightarrow>
      fst (getFocus (run evs (snd (getRoom st1)))) =
        \<lparr>f_type = ''question'', content = '''', author = '''', authorName = '''',
          f_ts = clock st1 (reads st1)\<rparr>) \<and>
   (room_ok st \<longrightarrow> room_ok (run evs st) \<and> wf_focus (fst (getFocus (run evs st)))) \<and>
   wf_focus (fst (getFocus (run evs (init st0))))"
proof (intro conjI impI)
  let ?d = "\<lambda>t. \<lparr>f_type = ''question'', content = '''', author = '''', authorName = '''', f_ts = t\<rparr>"
  show "\<exists>r. stored_room (init st0) = Some r \<and> focus r = ?d (startedAt r)"
    by (simp add: init_room)
  show "stored_room (snd (getRoom st1)) = Some (fst (getRoom st1))"
    by (rule getRoom_stored)
  show "focus (fst (getRoom st1)) = ?d (startedAt (fst (getRoom st1)))"
    if "stored_room st1 = None" using that by (simp add: getRoom_None)
  have ok0: "room_ok (init st0)"
    by (simp add: room_ok_def init_room wf_focus_def)
  show ok: "room_ok (run evs st)" if "room_ok st" for st
    using that by (rule run_room_ok)
  show wf: "wf_focus (fst (getFocus (run evs st)))" if "room_ok st" for st
    using room_ok_getRoom[OF ok[OF that]] by (simp add: getFocus_eq)
  show "wf_focus (fst (getFocus (run evs (init st0))))"
    by (rule wf[OF ok0])
  {
    assume q: "list_all (\<lambda>e. \<not> sets_focus e) evs"
    then have q': "\<forall>e \<in> set evs. \<not> sets_focus e" by (simp add: list_all_iff)
    from run_keeps_focus[OF init_room q', of st0] obtain r' where
      r': "stored_room (run evs (init st0)) = Some r'"
      and k: "startedAt r' = clock st0 (reads st0)" "focus r' = ?d (clock st0 (reads st0))"
      by auto
    show "fst (getFocus (run evs (init st0))) = ?d (clock st0 (reads st0))"
      by (simp add: getFocus_eq getRoom_Some[OF r'] k)
    show "ps_focus (fst (publicState (run evs (init st0)))) = ?d (clock st0 (reads st0))"
      by (simp add: publicState_eq getRoom_Some[OF r'] k)
    show "ps_startedAt (fst (publicState (run evs (init st0)))) = clock st0 (reads st0)"
      by (simp add: publicState_eq getRoom_Some[OF r'] k)
  }
  {
    assume "list_all (\<lambda>e. \<not> sets_focus e) evs \<and> stored_room st1 = None"
    then have q': "\<forall>e \<in> set evs. \<not> sets_focus e" and n: "stored_room st1 = None"
      by (simp_all add: list_all_iff)
    from run_keeps_focus[OF getRoom_stored q', of st1] obtain r' where
      r': "stored_room (run evs (snd (getRoom st1))) = Some r'"
      and k: "focus r' = focus (fst (getRoom st1))"
      by auto
    have "fst (getFocus (run evs (snd (getRoom st1)))) = focus r'"
      by (simp only: getFocus_eq getRoom_Some[OF r'] fst_conv)
    also have "\<dots> = focus (fst (getRoom st1))" by (rule k)
    also have "\<dots> = ?d (clock st1 (reads st1))" by (simp add: getRoom_None[OF n])
    finally show "fst (getFocus (run evs (snd (getRoom st1)))) = ?d (clock st1 (reads st1))" .
  }
qed

theorem focus_is_always_present_and_well_formed_witness:
  "list_all (\<lambda>e. \<not> sets_focus e) quiet_events \<and>
   list_ex sets_focus busy_events \<and>
   stored_room (RoomDO None None demo_clock) = None \<and>
   room_ok new_room \<and>
   fst (getFocus (run quiet_events new_room)) =
     \<lparr>f_type = ''question'', content = '''', author = '''', authorName = '''', f_ts = 1000\<rparr> \<and>
   fst (getFocus (run quiet_events (snd (getRoom (RoomDO None None demo_clock))))) =
     \<lparr>f_type = ''question'', content = '''', author = '''', authorName = '''', f_ts = 1000\<rparr> \<and>
   wf_focus (fst (getFocus (run busy_events new_room)))"
proof -
  have q: "list_all (\<lambda>e. \<not> sets_focus e) quiet_events"
    by (simp add: quiet_events_def)
  have b: "list_ex sets_focus busy_events"
    by (simp add: busy_events_def good_set_focus_def)
  have n: "stored_room (RoomDO None None demo_clock) = None"
    by (simp add: RoomDO_def)
  have ok: "room_ok new_room"
    by (simp add: room_ok_def new_room_state wf_focus_def)
  have c: "clock (RoomDO None None demo_clock) (reads (RoomDO None None demo_clock)) = 1000"
    by (simp add: RoomDO_def demo_clock_def)
  from focus_is_always_present_and_well_formed[of "RoomDO None None demo_clock"
      "RoomDO None None demo_clock" quiet_events new_room]
  have 1: "fst (getFocus (run quiet_events new_room)) =
     \<lparr>f_type = ''question'', content = '''', author = '''', authorName = '''', f_ts = 1000\<rparr>"
    and 2: "fst (getFocus (run quiet_events (snd (getRoom (RoomDO None None demo_clock))))) =
     \<lparr>f_type = ''question'', content = '''', author = '''', authorName = '''', f_ts = 1000\<rparr>"
    using q n c by (simp_all add: new_room_def)
  from focus_is_always_present_and_well_formed[of "RoomDO None None demo_clock"
      "RoomDO None None demo_clock" busy_events new_room] ok
  have 3: "wf_focus (fst (getFocus (run busy_events new_room)))"
    by simp
  from q b n ok 1 2 3 show ?thesis by simp
qed

section \<open>The roster after a run of connects and disconnects\<close>









lemma unique_sessions_fresh:
  "unique_sessions seen evs \<Longrightarrow> set gone \<subseteq> set seen \<Longrightarrow> fresh_sessions gone evs"
  by (induction seen evs arbitrary: gone rule: unique_sessions.induct) auto



section \<open>A room from creation to the last disconnect\<close>

text \<open>
  The handlers run one after the other on a new room: an invite is issued, Ada connects
  with its token, sets the focus to the text \<open>Hello\<close>, and disconnects. Her connection
  receives the private snapshot, the presence broadcast and the focus; the roster is Ada
  and then nobody; the timeline has one event for each mutation after \<open>room_started\<close>.
\<close>

lemma scenario_roster_and_focus:
  "map p_name (participants (the (stored_room (run scenario new_room)))) = [''Ada''] \<and>
   focus (the (stored_room (run scenario new_room))) =
     \<lparr>f_type = ''text'', content = ''Hello'', author = ''s-ada'', authorName = ''Ada'',
       f_ts = 1006\<rparr> \<and>
   map (\<lambda>(c, s). (c, length (sent (ws s)))) (sessions (run scenario new_room)) = [(''s-ada'', 3)] \<and>
   last (sent (ws (snd (hd (sessions (run scenario new_room)))))) =
     Frame (Focus \<lparr>f_type = ''text'', content = ''Hello'', author = ''s-ada'',
                    authorName = ''Ada'', f_ts = 1006\<rparr>) \<and>
   participants (the (stored_room (run (scenario @ [Close ''s-ada'']) new_room))) = [] \<and>
   map te_kind (timeline (the (stored_room (run (scenario @ [Close ''s-ada'']) new_room)))) =
     [room_started, join, set_focus, leave]"
  by code_simp

end
